theory Spec2Isabelle
  imports Complex_Main "HOL-Library.Log_Nat"
begin

section \<open>Python floats: IEEE 754 binary64 with round-to-nearest-even\<close>

text \<open>
  A Python \<^verbatim>\<open>float\<close> is a binary64 value. A finite one is kept as a sign bit (\<open>True\<close> is
  negative, so that \<open>-0.0\<close> is \<open>Finite True 0\<close>) and its exact magnitude, a rational number;
  the other values are the two infinities and NaN. Every arithmetic operation computes the
  exact rational result and rounds it once, to the nearest binary64 value, ties to even.
\<close>

datatype double = Finite bool rat | Infinity bool | NaN

definition pow2 :: "int \<Rightarrow> rat" where
  "pow2 e = (if 0 \<le> e then 2 ^ nat e else 1 / 2 ^ nat (- e))"

text \<open>\<open>ilog2 a\<close> is the integer \<open>e\<close> with \<open>2^e \<le> a < 2^(e+1)\<close>, for \<open>a > 0\<close>.\<close>

definition ilog2 :: "rat \<Rightarrow> int" where
  "ilog2 a = (if 1 \<le> a then bitlen \<lfloor>a\<rfloor> - 1 else - bitlen (\<lceil>1 / a\<rceil> - 1))"

definition round_half_even :: "rat \<Rightarrow> int" where
  "round_half_even x =
     (let n = \<lfloor>x\<rfloor>; r = x - of_int n
      in if r < 1 / 2 then n else if 1 / 2 < r then n + 1
         else if even n then n else n + 1)"

text \<open>
  Rounding a positive magnitude: the spacing of binary64 values around \<open>a\<close> is \<open>2^q\<close> with
  \<open>q = max (ilog2 a) (-1022) - 52\<close> (53 significant bits, subnormals below \<open>2^-1022\<close>).
\<close>

definition round_mag :: "rat \<Rightarrow> rat" where
  "round_mag a =
     (let q = max (ilog2 a) (- 1022) - 52
      in of_int (round_half_even (a / pow2 q)) * pow2 q)"

definition mk_double :: "bool \<Rightarrow> rat \<Rightarrow> double" where
  "mk_double s a =
     (if a = 0 then Finite s 0
      else let r = round_mag a in if 2 ^ 1024 \<le> r then Infinity s else Finite s r)"

definition signed :: "bool \<Rightarrow> rat \<Rightarrow> rat" where
  "signed s a = (if s then - a else a)"

fun float_mul :: "double \<Rightarrow> double \<Rightarrow> double" where
  "float_mul NaN _ = NaN"
| "float_mul _ NaN = NaN"
| "float_mul (Infinity s) (Infinity t) = Infinity (s \<noteq> t)"
| "float_mul (Infinity s) (Finite t b) = (if b = 0 then NaN else Infinity (s \<noteq> t))"
| "float_mul (Finite s a) (Infinity t) = (if a = 0 then NaN else Infinity (s \<noteq> t))"
| "float_mul (Finite s a) (Finite t b) = mk_double (s \<noteq> t) (a * b)"

fun float_add :: "double \<Rightarrow> double \<Rightarrow> double" where
  "float_add NaN _ = NaN"
| "float_add _ NaN = NaN"
| "float_add (Infinity s) (Infinity t) = (if s = t then Infinity s else NaN)"
| "float_add (Infinity s) (Finite t b) = Infinity s"
| "float_add (Finite s a) (Infinity t) = Infinity t"
| "float_add (Finite s a) (Finite t b) =
     (let v = signed s a + signed t b
      in if v = 0 then Finite (s \<and> t) 0 else mk_double (v < 0) \<bar>v\<bar>)"

fun float_div :: "double \<Rightarrow> double \<Rightarrow> double" where
  "float_div NaN _ = NaN"
| "float_div _ NaN = NaN"
| "float_div (Infinity s) (Infinity t) = NaN"
| "float_div (Infinity s) (Finite t b) = Infinity (s \<noteq> t)"
| "float_div (Finite s a) (Infinity t) = Finite (s \<noteq> t) 0"
| "float_div (Finite s a) (Finite t b) =
     (if b = 0 then (if a = 0 then NaN else Infinity (s \<noteq> t))
      else mk_double (s \<noteq> t) (a / b))"

fun float_neg :: "double \<Rightarrow> double" where
  "float_neg NaN = NaN"
| "float_neg (Infinity s) = Infinity (\<not> s)"
| "float_neg (Finite s a) = Finite (\<not> s) a"

text \<open>Python's \<^verbatim>\<open>==\<close> on two floats: NaN equals nothing, the two zeros are equal.\<close>

fun float_eq :: "double \<Rightarrow> double \<Rightarrow> bool" where
  "float_eq (Finite s a) (Finite t b) = (signed s a = signed t b)"
| "float_eq (Infinity s) (Infinity t) = (s = t)"
| "float_eq _ _ = False"

text \<open>Python compares an int with a float exactly, without converting the int.\<close>

fun int_float_eq :: "int \<Rightarrow> double \<Rightarrow> bool" where
  "int_float_eq n (Finite s a) = (of_int n = signed s a)"
| "int_float_eq n _ = False"

text \<open>
  The binary64 values among the terms of type \<open>double\<close>: a finite magnitude is one that
  rounding leaves alone and that is below \<open>2^1024\<close>.
\<close>

fun is_double :: "double \<Rightarrow> bool" where
  "is_double (Finite s a) = (a = 0 \<or> (0 < a \<and> round_mag a = a \<and> a < 2 ^ 1024))"
| "is_double _ = True"

fun is_finite :: "double \<Rightarrow> bool" where
  "is_finite (Finite s a) = True"
| "is_finite _ = False"

section \<open>Python values and exceptions\<close>

text \<open>
  The values that reach the class in this development: ints, floats, \<^verbatim>\<open>None\<close> (standing
  for any object without \<^verbatim>\<open>__len__\<close>, \<^verbatim>\<open>__float__\<close> and \<^verbatim>\<open>__iter__\<close>), tuples and lists.
  Strings are outside the model.
\<close>

datatype pyval = PyInt int | PyFloat double | PyNone | PyTuple "pyval list" | PyList "pyval list"

text \<open>
  The attribute \<^verbatim>\<open>self.values\<close>: a tuple of row tuples. Every path of \<^verbatim>\<open>__init__\<close> stores
  three rows; the rows themselves are whatever the caller supplied on the raw-grid path.
\<close>

record PdfMatrix =
  values_m :: "pyval list list"

datatype arg = Val pyval | Obj PdfMatrix

datatype error =
    ValueError_invalid_arguments "arg list"
  | ValueError_unpack
  | ValueError_math_domain
  | TypeError
  | OverflowError
  | ZeroDivisionError
  | IndexError

fun ebind :: "error + 'a \<Rightarrow> ('a \<Rightarrow> error + 'b) \<Rightarrow> error + 'b" where
  "ebind (Inl e) f = Inl e"
| "ebind (Inr x) f = f x"

fun traverse :: "('a \<Rightarrow> error + 'b) \<Rightarrow> 'a list \<Rightarrow> error + 'b list" where
  "traverse f [] = Inr []"
| "traverse f (x # xs) = ebind (f x) (\<lambda>y. ebind (traverse f xs) (\<lambda>ys. Inr (y # ys)))"

text \<open>
  \<^verbatim>\<open>float(x)\<close>: a float is returned as it is; an int is rounded to the nearest binary64
  value and raises OverflowError when that is out of range; anything else raises TypeError.
\<close>

fun py_float :: "pyval \<Rightarrow> error + double" where
  "py_float (PyFloat d) = Inr d"
| "py_float (PyInt n) =
     (case mk_double (n < 0) (of_int \<bar>n\<bar>) of
        Infinity s \<Rightarrow> Inl OverflowError
      | d \<Rightarrow> Inr d)"
| "py_float _ = Inl TypeError"

fun py_len :: "pyval \<Rightarrow> error + nat" where
  "py_len (PyTuple xs) = Inr (length xs)"
| "py_len (PyList xs) = Inr (length xs)"
| "py_len _ = Inl TypeError"

text \<open>\<^verbatim>\<open>tuple(x)\<close>, and the items an iteration over \<^verbatim>\<open>x\<close> yields.\<close>

fun py_tuple :: "pyval \<Rightarrow> error + pyval list" where
  "py_tuple (PyTuple xs) = Inr xs"
| "py_tuple (PyList xs) = Inr xs"
| "py_tuple _ = Inl TypeError"

definition nth_err :: "'a list \<Rightarrow> nat \<Rightarrow> error + 'a" where
  "nth_err xs i = (if i < length xs then Inr (xs ! i) else Inl IndexError)"

fun py_getitem :: "pyval \<Rightarrow> nat \<Rightarrow> error + pyval" where
  "py_getitem (PyTuple xs) i = nth_err xs i"
| "py_getitem (PyList xs) i = nth_err xs i"
| "py_getitem _ i = Inl TypeError"

fun arg_float :: "arg \<Rightarrow> error + double" where
  "arg_float (Val v) = py_float v"
| "arg_float (Obj m) = Inl TypeError"

text \<open>Python's \<^verbatim>\<open>==\<close> on the modelled values.\<close>

fun py_eq :: "pyval \<Rightarrow> pyval \<Rightarrow> bool"
  and py_eq_items :: "pyval list \<Rightarrow> pyval list \<Rightarrow> bool" where
  "py_eq (PyInt m) (PyInt n) = (m = n)"
| "py_eq (PyInt m) (PyFloat d) = int_float_eq m d"
| "py_eq (PyFloat d) (PyInt n) = int_float_eq n d"
| "py_eq (PyFloat d) (PyFloat d') = float_eq d d'"
| "py_eq PyNone PyNone = True"
| "py_eq (PyTuple xs) (PyTuple ys) = py_eq_items xs ys"
| "py_eq (PyList xs) (PyList ys) = py_eq_items xs ys"
| "py_eq _ _ = False"
| "py_eq_items [] [] = True"
| "py_eq_items (x # xs) (y # ys) = (py_eq x y \<and> py_eq_items xs ys)"
| "py_eq_items _ _ = False"

section \<open>The class PdfMatrix\<close>

subsection \<open>\<^verbatim>\<open>__init__\<close> and \<^verbatim>\<open>identity\<close>\<close>

text \<open>
  \<^verbatim>\<open>a, b, c, d, e, f = map(float, xs)\<close> followed by the assignment of the three rows; the
  callers have checked that \<open>xs\<close> has six items.
\<close>

fun from_six :: "double list \<Rightarrow> error + PdfMatrix" where
  "from_six [a, b, c, d, e, f] =
     Inr \<lparr>values_m = [[PyFloat a, PyFloat b, PyInt 0],
                      [PyFloat c, PyFloat d, PyInt 0],
                      [PyFloat e, PyFloat f, PyInt 1]]\<rparr>"
| "from_six _ = Inl ValueError_unpack"

definition PdfMatrix_init :: "arg list \<Rightarrow> error + PdfMatrix" where
  "PdfMatrix_init args =
     (if args = [] then
        Inr \<lparr>values_m = [[PyInt 1, PyInt 0, PyInt 0],
                         [PyInt 0, PyInt 1, PyInt 0],
                         [PyInt 0, PyInt 0, PyInt 1]]\<rparr>
      else if length args = 6 then
        ebind (traverse arg_float args) from_six
      else case hd args of
        Obj m \<Rightarrow> Inr \<lparr>values_m = values_m m\<rparr>
      | Val v \<Rightarrow>
          ebind (py_len v) (\<lambda>n.
            if n = 6 then
              ebind (py_tuple v) (\<lambda>xs. ebind (traverse py_float xs) from_six)
            else
              ebind (if n = 3
                     then ebind (py_getitem v 0) (\<lambda>r0. ebind (py_len r0) (\<lambda>k. Inr (k = 3)))
                     else Inr False) (\<lambda>is_grid.
                if is_grid then
                  ebind (py_getitem v 0) (\<lambda>r0. ebind (py_tuple r0) (\<lambda>t0.
                  ebind (py_getitem v 1) (\<lambda>r1. ebind (py_tuple r1) (\<lambda>t1.
                  ebind (py_getitem v 2) (\<lambda>r2. ebind (py_tuple r2) (\<lambda>t2.
                    Inr \<lparr>values_m = [t0, t1, t2]\<rparr>))))))
                else Inl (ValueError_invalid_arguments args))))"

definition identity :: "error + PdfMatrix" where
  "identity = PdfMatrix_init []"

subsection \<open>Accessors, \<^verbatim>\<open>shorthand\<close> and \<^verbatim>\<open>__eq__\<close>\<close>

definition cell :: "PdfMatrix \<Rightarrow> nat \<Rightarrow> nat \<Rightarrow> error + pyval" where
  "cell m i j = ebind (nth_err (values_m m) i) (\<lambda>row. nth_err row j)"

definition PdfMatrix_a :: "PdfMatrix \<Rightarrow> error + pyval" where
  "PdfMatrix_a m = cell m 0 0"
definition PdfMatrix_b :: "PdfMatrix \<Rightarrow> error + pyval" where
  "PdfMatrix_b m = cell m 0 1"
definition PdfMatrix_c :: "PdfMatrix \<Rightarrow> error + pyval" where
  "PdfMatrix_c m = cell m 1 0"
definition PdfMatrix_d :: "PdfMatrix \<Rightarrow> error + pyval" where
  "PdfMatrix_d m = cell m 1 1"
definition PdfMatrix_e :: "PdfMatrix \<Rightarrow> error + pyval" where
  "PdfMatrix_e m = cell m 2 0"
definition PdfMatrix_f :: "PdfMatrix \<Rightarrow> error + pyval" where
  "PdfMatrix_f m = cell m 2 1"

definition shorthand :: "PdfMatrix \<Rightarrow> error + pyval list" where
  "shorthand m =
     ebind (PdfMatrix_a m) (\<lambda>va. ebind (PdfMatrix_b m) (\<lambda>vb.
     ebind (PdfMatrix_c m) (\<lambda>vc. ebind (PdfMatrix_d m) (\<lambda>vd.
     ebind (PdfMatrix_e m) (\<lambda>ve. ebind (PdfMatrix_f m) (\<lambda>vf.
       Inr [va, vb, vc, vd, ve, vf]))))))"

definition PdfMatrix_eq :: "PdfMatrix \<Rightarrow> arg \<Rightarrow> error + bool" where
  "PdfMatrix_eq self other =
     (case other of
        Obj m \<Rightarrow> ebind (shorthand self) (\<lambda>s1. ebind (shorthand m) (\<lambda>s2.
                   Inr (py_eq (PyTuple s1) (PyTuple s2))))
      | Val v \<Rightarrow> Inr False)"

subsection \<open>\<^verbatim>\<open>__matmul__\<close>\<close>

text \<open>\<^verbatim>\<open>zip(*b)\<close>: the columns of \<open>b\<close>, as many as its shortest row has items.\<close>

fun min_len :: "'a list list \<Rightarrow> nat" where
  "min_len [] = 0"
| "min_len [r] = length r"
| "min_len (r # rs) = min (length r) (min_len rs)"

definition zip_star :: "'a list list \<Rightarrow> 'a list list" where
  "zip_star rows = map (\<lambda>j. map (\<lambda>r. r ! j) rows) [0 ..< min_len rows]"

text \<open>
  \<^verbatim>\<open>sum(...)\<close> starts from the int \<open>0\<close> and adds the items from left to right; the first
  addition turns the int into \<open>0.0\<close>.
\<close>

fun py_sum :: "double list \<Rightarrow> pyval" where
  "py_sum [] = PyInt 0"
| "py_sum ts = PyFloat (foldl float_add (Finite False 0) ts)"

definition dot :: "pyval list \<Rightarrow> pyval list \<Rightarrow> error + pyval" where
  "dot row col =
     ebind (traverse (\<lambda>(i, j). ebind (py_float i) (\<lambda>x. ebind (py_float j) (\<lambda>y.
                        Inr (float_mul x y)))) (zip row col))
       (\<lambda>ts. Inr (py_sum ts))"

definition matmul :: "PdfMatrix \<Rightarrow> PdfMatrix \<Rightarrow> error + PdfMatrix" where
  "matmul self other =
     ebind (traverse (\<lambda>row. ebind (traverse (dot row) (zip_star (values_m other)))
                               (\<lambda>r. Inr (PyList r)))
              (values_m self))
       (\<lambda>rows. PdfMatrix_init [Val (PyList rows)])"

subsection \<open>\<^verbatim>\<open>scaled\<close>, \<^verbatim>\<open>rotated\<close>, \<^verbatim>\<open>translated\<close>\<close>

definition scaled :: "PdfMatrix \<Rightarrow> pyval \<Rightarrow> pyval \<Rightarrow> error + PdfMatrix" where
  "scaled self x y =
     ebind (PdfMatrix_init [Val (PyTuple [x, PyInt 0, PyInt 0, y, PyInt 0, PyInt 0])])
       (matmul self)"

definition translated :: "PdfMatrix \<Rightarrow> pyval \<Rightarrow> pyval \<Rightarrow> error + PdfMatrix" where
  "translated self x y =
     ebind (PdfMatrix_init [Val (PyTuple [PyInt 1, PyInt 0, PyInt 0, PyInt 1, x, y])])
       (matmul self)"

text \<open>\<^verbatim>\<open>math.pi\<close> is the binary64 value nearest to the number pi.\<close>

definition pi_double :: double where
  "pi_double = Finite False (884279719003555 / 2 ^ 48)"

text \<open>\<^verbatim>\<open>x / y\<close> with a float \<open>y\<close>: the left operand is converted as \<^verbatim>\<open>float(x)\<close> does.\<close>

definition py_truediv :: "pyval \<Rightarrow> double \<Rightarrow> error + double" where
  "py_truediv x y =
     ebind (py_float x) (\<lambda>x'.
       if float_eq y (Finite False 0) then Inl ZeroDivisionError else Inr (float_div x' y))"

text \<open>
  \<^verbatim>\<open>math.cos\<close> and \<^verbatim>\<open>math.sin\<close> are the C library's functions; the development takes them
  as parameters \<open>cosf\<close> and \<open>sinf\<close>. Python's wrapper raises ValueError on an infinite
  argument.
\<close>

fun math_fn :: "(double \<Rightarrow> double) \<Rightarrow> double \<Rightarrow> error + double" where
  "math_fn fn (Infinity s) = Inl ValueError_math_domain"
| "math_fn fn x = Inr (fn x)"

definition degrees_to_angle :: "pyval \<Rightarrow> error + double" where
  "degrees_to_angle angle_degrees_ccw =
     ebind (py_truediv angle_degrees_ccw (Finite False 180))
       (\<lambda>q. Inr (float_mul q pi_double))"

definition rotated ::
  "(double \<Rightarrow> double) \<Rightarrow> (double \<Rightarrow> double) \<Rightarrow> PdfMatrix \<Rightarrow> pyval \<Rightarrow> error + PdfMatrix" where
  "rotated cosf sinf self angle_degrees_ccw =
     ebind (degrees_to_angle angle_degrees_ccw) (\<lambda>angle.
     ebind (math_fn cosf angle) (\<lambda>c. ebind (math_fn sinf angle) (\<lambda>s.
     ebind (PdfMatrix_init [Val (PyTuple [PyFloat c, PyFloat s, PyFloat (float_neg s),
                                          PyFloat c, PyInt 0, PyInt 0])])
       (matmul self))))"

subsection \<open>\<^verbatim>\<open>encode\<close>\<close>

definition digit_char :: "nat \<Rightarrow> char" where
  "digit_char n = ''0123456789'' ! n"

function dec_digits :: "nat \<Rightarrow> string" where
  "dec_digits n =
     (if n < 10 then [digit_char n] else dec_digits (n div 10) @ [digit_char (n mod 10)])"
  by pat_completeness auto
termination
  by (relation "measure id") auto

declare dec_digits.simps [simp del]

definition frac6 :: "nat \<Rightarrow> string" where
  "frac6 n = map (\<lambda>k. digit_char (n div 10 ^ k mod 10)) [5, 4, 3, 2, 1, 0]"

text \<open>
  The format \<^verbatim>\<open>{:.6f}\<close> on a float: the exact value rounded to six decimals, ties to even;
  the sign bit is printed also when the digits are all zero; infinities and NaN are
  printed as words.
\<close>

fun format_6f :: "double \<Rightarrow> string" where
  "format_6f (Finite s a) =
     (let n = nat (round_half_even (a * 10 ^ 6))
      in (if s then ''-'' else []) @ dec_digits (n div 10 ^ 6) @ ''.'' @ frac6 (n mod 10 ^ 6))"
| "format_6f (Infinity s) = (if s then ''-inf'' else ''inf'')"
| "format_6f NaN = ''nan''"

text \<open>An int is formatted through \<^verbatim>\<open>float\<close>; other values do not take the format.\<close>

fun py_format_6f :: "pyval \<Rightarrow> error + string" where
  "py_format_6f (PyFloat x) = Inr (format_6f x)"
| "py_format_6f (PyInt n) = ebind (py_float (PyInt n)) (\<lambda>x. Inr (format_6f x))"
| "py_format_6f _ = Inl TypeError"

fun join_fields :: "string list \<Rightarrow> string" where
  "join_fields [] = []"
| "join_fields [x] = x"
| "join_fields (x # xs) = x @ '' '' @ join_fields xs"

definition encode :: "PdfMatrix \<Rightarrow> error + string" where
  "encode m =
     ebind (shorthand m) (\<lambda>vs. ebind (traverse py_format_6f vs) (\<lambda>fs. Inr (join_fields fs)))"

subsection \<open>Instances as objects on a heap\<close>

text \<open>
  For the claims about mutation the instances live on a heap: an address is an index into
  the list of objects, and the only write of the class, \<^verbatim>\<open>self.values = ...\<close> in
  \<^verbatim>\<open>__init__\<close>, initialises the object that the call creates.
\<close>

type_synonym heap = "PdfMatrix list"

definition alloc :: "heap \<Rightarrow> PdfMatrix \<Rightarrow> nat \<times> heap" where
  "alloc h m = (length h, h @ [m])"

definition PdfMatrix_new :: "heap \<Rightarrow> arg list \<Rightarrow> error + nat \<times> heap" where
  "PdfMatrix_new h args = ebind (PdfMatrix_init args) (\<lambda>m. Inr (alloc h m))"

definition matmul_h :: "heap \<Rightarrow> nat \<Rightarrow> nat \<Rightarrow> error + nat \<times> heap" where
  "matmul_h h self other =
     ebind (nth_err h self) (\<lambda>ms. ebind (nth_err h other) (\<lambda>mo.
     ebind (matmul ms mo) (\<lambda>r. Inr (alloc h r))))"

definition scaled_h :: "heap \<Rightarrow> nat \<Rightarrow> pyval \<Rightarrow> pyval \<Rightarrow> error + nat \<times> heap" where
  "scaled_h h self x y =
     ebind (PdfMatrix_new h [Val (PyTuple [x, PyInt 0, PyInt 0, y, PyInt 0, PyInt 0])])
       (\<lambda>(t, h'). matmul_h h' self t)"

definition translated_h :: "heap \<Rightarrow> nat \<Rightarrow> pyval \<Rightarrow> pyval \<Rightarrow> error + nat \<times> heap" where
  "translated_h h self x y =
     ebind (PdfMatrix_new h [Val (PyTuple [PyInt 1, PyInt 0, PyInt 0, PyInt 1, x, y])])
       (\<lambda>(t, h'). matmul_h h' self t)"

definition rotated_h ::
  "(double \<Rightarrow> double) \<Rightarrow> (double \<Rightarrow> double) \<Rightarrow> heap \<Rightarrow> nat \<Rightarrow> pyval \<Rightarrow> error + nat \<times> heap" where
  "rotated_h cosf sinf h self angle_degrees_ccw =
     ebind (degrees_to_angle angle_degrees_ccw) (\<lambda>angle.
     ebind (math_fn cosf angle) (\<lambda>c. ebind (math_fn sinf angle) (\<lambda>s.
     ebind (PdfMatrix_new h [Val (PyTuple [PyFloat c, PyFloat s, PyFloat (float_neg s),
                                           PyFloat c, PyInt 0, PyInt 0])])
       (\<lambda>(t, h'). matmul_h h' self t))))"

section \<open>Vocabulary of the properties\<close>

text \<open>The 3x3 grid with the item \<open>g i k\<close> in row \<open>i\<close>, column \<open>k\<close>.\<close>

definition grid_of :: "(nat \<Rightarrow> nat \<Rightarrow> 'a) \<Rightarrow> 'a list list" where
  "grid_of g = [[g 0 0, g 0 1, g 0 2], [g 1 0, g 1 1, g 1 2], [g 2 0, g 2 1, g 2 2]]"


text \<open>The sum over \<open>k\<close> of \<open>x i k * y k j\<close>, as \<^verbatim>\<open>sum\<close> computes it.\<close>

definition sum_of_products :: "(nat \<Rightarrow> nat \<Rightarrow> double) \<Rightarrow> (nat \<Rightarrow> nat \<Rightarrow> double) \<Rightarrow> nat \<Rightarrow> nat \<Rightarrow> pyval" where
  "sum_of_products x y i j = py_sum (map (\<lambda>k. float_mul (x i k) (y k j)) [0, 1, 2])"

text \<open>The invariant of the data model: the third column is \<^verbatim>\<open>(0, 0, 1)\<close>.\<close>

definition third_column :: "PdfMatrix \<Rightarrow> error + pyval list" where
  "third_column m =
     ebind (cell m 0 2) (\<lambda>x. ebind (cell m 1 2) (\<lambda>y. ebind (cell m 2 2) (\<lambda>z. Inr [x, y, z])))"

definition valid :: "PdfMatrix \<Rightarrow> bool" where
  "valid m \<longleftrightarrow>
     (case third_column m of
        Inr col \<Rightarrow> py_eq (PyTuple col) (PyTuple [PyInt 0, PyInt 0, PyInt 1])
      | Inl err \<Rightarrow> False)"

text \<open>A number that \<^verbatim>\<open>float\<close> accepts: an int in the binary64 range, or a float.\<close>

fun wf_num :: "pyval \<Rightarrow> bool" where
  "wf_num (PyInt n) = (\<not> isl (py_float (PyInt n)))"
| "wf_num (PyFloat x) = is_double x"
| "wf_num _ = False"

text \<open>Such a number that is finite.\<close>

fun finite_num :: "pyval \<Rightarrow> bool" where
  "finite_num (PyInt n) = (\<not> isl (py_float (PyInt n)))"
| "finite_num (PyFloat x) = (is_double x \<and> is_finite x)"
| "finite_num _ = False"

text \<open>
  A finite number that \<^verbatim>\<open>float\<close> does not change: a finite binary64 value, or an int that
  is one.
\<close>

fun exact_num :: "pyval \<Rightarrow> bool" where
  "exact_num (PyInt n) = (py_float (PyInt n) = Inr (Finite (n < 0) (of_int \<bar>n\<bar>)))"
| "exact_num (PyFloat (Finite s a)) = is_double (Finite s a)"
| "exact_num _ = False"

text \<open>
  Two relations between a computed float and a number \<open>Finite s a\<close>: the float has the
  magnitude \<open>a\<close>, and also the sign \<open>s\<close> unless it is a zero; the float is a zero.
\<close>

definition same_num :: "double \<Rightarrow> bool \<Rightarrow> rat \<Rightarrow> bool" where
  "same_num x s a \<longleftrightarrow> (x = Finite s a \<or> (a = 0 \<and> x = Finite (\<not> s) 0))"

definition is_zero :: "double \<Rightarrow> bool" where
  "is_zero x \<longleftrightarrow> (x = Finite False 0 \<or> x = Finite True 0)"

text \<open>The floats of the identity matrix.\<close>

definition unit_entry :: "nat \<Rightarrow> nat \<Rightarrow> double" where
  "unit_entry i k = Finite False (if i = k then 1 else 0)"

text \<open>
  A value with a NaN in it. Python's comparison of tuples tests two items for identity
  before it compares them, which only matters for such values; a model of values cannot
  see identity, so the properties of \<^verbatim>\<open>==\<close> are stated for values without NaN.
\<close>

fun has_nan :: "pyval \<Rightarrow> bool" where
  "has_nan (PyFloat NaN) = True"
| "has_nan (PyTuple xs) = (\<exists>x \<in> set xs. has_nan x)"
| "has_nan (PyList xs) = (\<exists>x \<in> set xs. has_nan x)"
| "has_nan _ = False"

text \<open>
  A field with exactly six digits after the decimal point: an optional minus sign, one or
  more digits, a point, six digits, and nothing else.
\<close>

definition is_digit :: "char \<Rightarrow> bool" where
  "is_digit ch \<longleftrightarrow> ch \<in> set ''0123456789''"

definition is_fixed6 :: "string \<Rightarrow> bool" where
  "is_fixed6 str \<longleftrightarrow>
     (let t = (if take 1 str = ''-'' then drop 1 str else str);
          ip = takeWhile is_digit t;
          rest = dropWhile is_digit t
      in ip \<noteq> [] \<and> length rest = 7 \<and> take 1 rest = ''.'' \<and> list_all is_digit (drop 1 rest))"

text \<open>A number within \<open>tol\<close> of the rational \<open>t\<close>.\<close>

fun close_to :: "rat \<Rightarrow> pyval \<Rightarrow> rat \<Rightarrow> bool" where
  "close_to tol (PyFloat (Finite s a)) t = (\<bar>signed s a - t\<bar> \<le> tol)"
| "close_to tol (PyInt n) t = (\<bar>of_int n - t\<bar> \<le> tol)"
| "close_to tol _ t = False"

definition grid3x3 :: "(pyval \<Rightarrow> bool) \<Rightarrow> PdfMatrix \<Rightarrow> bool" where
  "grid3x3 P m \<longleftrightarrow>
     length (values_m m) = 3 \<and> (\<forall>row \<in> set (values_m m). length row = 3 \<and> (\<forall>v \<in> set row. P v))"

section \<open>Verified properties\<close>

subsection \<open>Small numbers are binary64 values\<close>

lemma round_mag_1: "round_mag 1 = 1"
  by (simp add: round_mag_def ilog2_def pow2_def round_half_even_def compute_bitlen)

lemma py_float_0: "py_float (PyInt 0) = Inr (Finite False 0)"
  by (simp add: mk_double_def)

lemma py_float_1: "py_float (PyInt 1) = Inr (Finite False 1)"
  by (simp add: mk_double_def round_mag_1)

subsection \<open>The shape checks of the constructor\<close>

text \<open>
  C10. The raw-grid check of \<^verbatim>\<open>__init__\<close> is shallow: one argument that is a sequence of
  three sequences is accepted as soon as the first row has three items. The second and
  the third row are stored as they are, whatever their lengths and items; the value
  \<^verbatim>\<open>((1,0,0),(0,),())\<close> is accepted and copied, not rejected.
\<close>

theorem grid_check_shallow:
  "(py_tuple v = Inr [r0, r1, r2] \<longrightarrow> py_tuple r0 = Inr t0 \<longrightarrow> length t0 = 3 \<longrightarrow>
    py_tuple r1 = Inr t1 \<longrightarrow> py_tuple r2 = Inr t2 \<longrightarrow>
      PdfMatrix_init [Val v] = Inr \<lparr>values_m = [t0, t1, t2]\<rparr>)
   \<and> PdfMatrix_init [Val (PyTuple [PyTuple [PyInt 1, PyInt 0, PyInt 0], PyTuple [PyInt 0], PyTuple []])]
       = Inr \<lparr>values_m = [[PyInt 1, PyInt 0, PyInt 0], [PyInt 0], []]\<rparr>"
proof -
  have seq: "py_len x = Inr (length xs) \<and> py_getitem x i = nth_err xs i"
    if "py_tuple x = Inr xs" for x xs i
    using that by (cases x) auto
  have "PdfMatrix_init [Val v] = Inr \<lparr>values_m = [t0, t1, t2]\<rparr>"
    if "py_tuple v = Inr [r0, r1, r2]" "py_tuple r0 = Inr t0" "length t0 = 3"
       "py_tuple r1 = Inr t1" "py_tuple r2 = Inr t2"
    using that seq[OF that(1)] seq[OF that(2)]
    by (simp add: PdfMatrix_init_def nth_err_def)
  moreover have "PdfMatrix_init [Val (PyTuple [PyTuple [PyInt 1, PyInt 0, PyInt 0], PyTuple [PyInt 0], PyTuple []])]
       = Inr \<lparr>values_m = [[PyInt 1, PyInt 0, PyInt 0], [PyInt 0], []]\<rparr>"
    by (simp add: PdfMatrix_init_def nth_err_def)
  ultimately show ?thesis by blast
qed

theorem grid_check_shallow_witness:
  "PdfMatrix_init [Val (PyList [PyList [PyInt 1, PyInt 0, PyInt 7], PyTuple [PyNone], PyList []])]
     = Inr \<lparr>values_m = [[PyInt 1, PyInt 0, PyInt 7], [PyNone], []]\<rparr>"
  using grid_check_shallow [of "PyList [PyList [PyInt 1, PyInt 0, PyInt 7], PyTuple [PyNone], PyList []]"
      "PyList [PyInt 1, PyInt 0, PyInt 7]" "PyTuple [PyNone]" "PyList []"
      "[PyInt 1, PyInt 0, PyInt 7]" "[PyNone]" "[]"]
  by simp


lemma py_len_seq: "py_len x = Inr n \<Longrightarrow> \<exists>xs. py_tuple x = Inr xs \<and> length xs = n"
  by (cases x) auto





lemma ebind_eq_Inr:
  "ebind x g = Inr r \<longleftrightarrow> (\<exists>y. x = Inr y \<and> g y = Inr r)"
  by (cases x) auto




lemma nth_err_not_invalid: "nth_err xs i \<noteq> Inl (ValueError_invalid_arguments as)"
  by (simp add: nth_err_def)




subsection \<open>Coefficients and the shorthand\<close>

lemmas round_eval = mk_double_def round_mag_def ilog2_def pow2_def round_half_even_def compute_bitlen

lemma cell_rows:
  "i < 3 \<Longrightarrow> j < 3 \<Longrightarrow>
   cell \<lparr>values_m = [[x00, x01, x02], [x10, x11, x12], [x20, x21, x22]]\<rparr> i j
     = Inr ([[x00, x01, x02], [x10, x11, x12], [x20, x21, x22]] ! i ! j)"
  by (auto simp add: cell_def nth_err_def less_Suc_eq numeral_3_eq_3)

text \<open>
  C5. For six scalars that \<^verbatim>\<open>float\<close> accepts, the instance built from them, as six
  arguments or as one sequence of six, has the shorthand \<^verbatim>\<open>(float(a), ..., float(f))\<close>, and
  the accessors \<^verbatim>\<open>a, b, c, d, e, f\<close> read the grid at (0,0), (0,1), (1,0), (1,1), (2,0), (2,1).
\<close>

theorem shorthand_round_trip:
  assumes "py_float va = Inr xa" "py_float vb = Inr xb" "py_float vc = Inr xc"
    "py_float vd = Inr xd" "py_float ve = Inr xe" "py_float vf = Inr xf"
  shows "\<exists>m. PdfMatrix_init [Val va, Val vb, Val vc, Val vd, Val ve, Val vf] = Inr m
    \<and> PdfMatrix_init [Val (PyTuple [va, vb, vc, vd, ve, vf])] = Inr m
    \<and> PdfMatrix_init [Val (PyList [va, vb, vc, vd, ve, vf])] = Inr m
    \<and> shorthand m = Inr [PyFloat xa, PyFloat xb, PyFloat xc, PyFloat xd, PyFloat xe, PyFloat xf]
    \<and> PdfMatrix_a m = Inr (values_m m ! 0 ! 0) \<and> PdfMatrix_b m = Inr (values_m m ! 0 ! 1)
    \<and> PdfMatrix_c m = Inr (values_m m ! 1 ! 0) \<and> PdfMatrix_d m = Inr (values_m m ! 1 ! 1)
    \<and> PdfMatrix_e m = Inr (values_m m ! 2 ! 0) \<and> PdfMatrix_f m = Inr (values_m m ! 2 ! 1)"
proof -
  let ?m = "\<lparr>values_m = [[PyFloat xa, PyFloat xb, PyInt 0],
                           [PyFloat xc, PyFloat xd, PyInt 0],
                           [PyFloat xe, PyFloat xf, PyInt 1]]\<rparr>"
  have 1: "PdfMatrix_init [Val va, Val vb, Val vc, Val vd, Val ve, Val vf] = Inr ?m"
    using assms by (simp add: PdfMatrix_init_def)
  have 2: "PdfMatrix_init [Val (PyTuple [va, vb, vc, vd, ve, vf])] = Inr ?m"
    using assms by (simp add: PdfMatrix_init_def)
  have 3: "PdfMatrix_init [Val (PyList [va, vb, vc, vd, ve, vf])] = Inr ?m"
    using assms by (simp add: PdfMatrix_init_def)
  have acc: "PdfMatrix_a ?m = Inr (PyFloat xa)" "PdfMatrix_b ?m = Inr (PyFloat xb)"
    "PdfMatrix_c ?m = Inr (PyFloat xc)" "PdfMatrix_d ?m = Inr (PyFloat xd)"
    "PdfMatrix_e ?m = Inr (PyFloat xe)" "PdfMatrix_f ?m = Inr (PyFloat xf)"
    by (simp_all add: PdfMatrix_a_def PdfMatrix_b_def PdfMatrix_c_def PdfMatrix_d_def
        PdfMatrix_e_def PdfMatrix_f_def cell_rows)
  have 4: "shorthand ?m = Inr [PyFloat xa, PyFloat xb, PyFloat xc, PyFloat xd, PyFloat xe, PyFloat xf]"
    by (simp add: shorthand_def acc)
  have 5: "PdfMatrix_a ?m = Inr (values_m ?m ! 0 ! 0) \<and> PdfMatrix_b ?m = Inr (values_m ?m ! 0 ! 1)
    \<and> PdfMatrix_c ?m = Inr (values_m ?m ! 1 ! 0) \<and> PdfMatrix_d ?m = Inr (values_m ?m ! 1 ! 1)
    \<and> PdfMatrix_e ?m = Inr (values_m ?m ! 2 ! 0) \<and> PdfMatrix_f ?m = Inr (values_m ?m ! 2 ! 1)"
    by (simp add: acc)
  from 1 2 3 4 5 show ?thesis by blast
qed

lemma py_float_2: "py_float (PyInt 2) = Inr (Finite False 2)"
  by (simp add: round_eval)

lemma py_float_neg3: "py_float (PyInt (- 3)) = Inr (Finite True 3)"
  by (simp add: round_eval)

theorem shorthand_round_trip_witness:
  "\<exists>m. PdfMatrix_init [Val (PyInt 2), Val (PyFloat (Finite True (1 / 2))), Val (PyInt 0),
                        Val (PyInt (- 3)), Val (PyFloat NaN), Val (PyInt 1)] = Inr m
    \<and> PdfMatrix_init [Val (PyTuple [PyInt 2, PyFloat (Finite True (1 / 2)), PyInt 0,
                                    PyInt (- 3), PyFloat NaN, PyInt 1])] = Inr m
    \<and> shorthand m = Inr [PyFloat (Finite False 2), PyFloat (Finite True (1 / 2)),
         PyFloat (Finite False 0), PyFloat (Finite True 3), PyFloat NaN, PyFloat (Finite False 1)]"
  using shorthand_round_trip [OF py_float_2 py_float.simps(1) py_float_0 py_float_neg3
      py_float.simps(1) py_float_1, of "Finite True (1 / 2)" NaN]
  by blast

subsection \<open>Multiplication of 3x3 grids\<close>

lemma zip_star_grid_of:
  "zip_star (grid_of g) = grid_of (\<lambda>i k. g k i)"
  by (simp add: zip_star_def grid_of_def upt_rec numeral_3_eq_3)

lemma length3_nth: "length xs = 3 \<Longrightarrow> xs = [xs ! 0, xs ! 1, xs ! 2]"
  by (auto simp: numeral_3_eq_3 length_Suc_conv)


lemma dot_3:
  assumes "py_float a0 = Inr x0" "py_float a1 = Inr x1" "py_float a2 = Inr x2"
    "py_float b0 = Inr y0" "py_float b1 = Inr y1" "py_float b2 = Inr y2"
  shows "dot [a0, a1, a2] [b0, b1, b2] =
    Inr (PyFloat (float_add (float_add (float_add (Finite False 0) (float_mul x0 y0))
                    (float_mul x1 y1)) (float_mul x2 y2)))"
  using assms by (simp add: dot_def)

lemma init_grid_lists:
  "PdfMatrix_init [Val (PyList [PyList [c00, c01, c02], PyList r1, PyList r2])]
     = Inr \<lparr>values_m = [[c00, c01, c02], r1, r2]\<rparr>"
  by (simp add: PdfMatrix_init_def nth_err_def)

lemma matmul_grid_of:
  assumes A: "values_m A = grid_of a" and B: "values_m B = grid_of b"
    and x: "\<And>i k. i < 3 \<Longrightarrow> k < 3 \<Longrightarrow> py_float (a i k) = Inr (x i k)"
    and y: "\<And>i k. i < 3 \<Longrightarrow> k < 3 \<Longrightarrow> py_float (b i k) = Inr (y i k)"
  shows "matmul A B = Inr \<lparr>values_m = grid_of (sum_of_products x y)\<rparr>"
proof -
  have d: "dot [a i 0, a i 1, a i 2] [b 0 j, b 1 j, b 2 j] = Inr (sum_of_products x y i j)"
    if "i < 3" "j < 3" for i j
    using that dot_3[of "a i 0" "x i 0" "a i 1" "x i 1" "a i 2" "x i 2"
        "b 0 j" "y 0 j" "b 1 j" "y 1 j" "b 2 j" "y 2 j"] x y
    by (simp add: sum_of_products_def)
  have z: "zip_star (values_m B) = [[b 0 0, b 1 0, b 2 0], [b 0 1, b 1 1, b 2 1], [b 0 2, b 1 2, b 2 2]]"
    by (simp add: B zip_star_grid_of) (simp add: grid_of_def)
  have row: "traverse (dot [a i 0, a i 1, a i 2]) (zip_star (values_m B))
      = Inr [sum_of_products x y i 0, sum_of_products x y i 1, sum_of_products x y i 2]"
    if "i < 3" for i
    using that d[of i 0] d[of i 1] d[of i 2] by (simp add: z)
  show ?thesis
    unfolding matmul_def A
    using row[of 0] row[of 1] row[of 2]
    by (simp add: grid_of_def[of a] init_grid_lists) (simp add: grid_of_def)
qed

subsection \<open>Exact float arithmetic with zeros and ones\<close>

lemma mk_double_exact: "is_double (Finite s a) \<Longrightarrow> mk_double t a = Finite t a"
  by (auto simp: mk_double_def)

lemma is_double_nonneg: "is_double (Finite s a) \<Longrightarrow> 0 \<le> a"
  by auto

lemma is_zero_0: "is_zero (Finite t 0)"
  by (cases t) (simp_all add: is_zero_def)

lemma mul_zero_r: "is_zero z \<Longrightarrow> is_zero (float_mul (Finite s a) z)"
  by (auto simp: is_zero_def mk_double_def)

lemma mul_zero_l: "is_zero z \<Longrightarrow> is_zero (float_mul z (Finite s a))"
  by (auto simp: is_zero_def mk_double_def)

lemma mul_one_r: "is_double (Finite s a) \<Longrightarrow> same_num (float_mul (Finite s a) (Finite False 1)) s a"
  by (simp add: same_num_def mk_double_exact)

lemma mul_one_l: "is_double (Finite s a) \<Longrightarrow> same_num (float_mul (Finite False 1) (Finite s a)) s a"
  by (simp add: same_num_def mk_double_exact)

lemma add_zero_zero: "is_zero x \<Longrightarrow> is_zero z \<Longrightarrow> is_zero (float_add x z)"
  by (auto simp: is_zero_def signed_def)

lemma add_same_zero:
  "is_double (Finite s a) \<Longrightarrow> same_num x s a \<Longrightarrow> is_zero z \<Longrightarrow> same_num (float_add x z) s a"
  by (cases s) (auto simp: same_num_def is_zero_def signed_def mk_double_def)

lemma add_zero_same:
  "is_double (Finite s a) \<Longrightarrow> is_zero z \<Longrightarrow> same_num x s a \<Longrightarrow> same_num (float_add z x) s a"
  by (cases s) (auto simp: same_num_def is_zero_def signed_def mk_double_def)

lemma same_num_float_eq: "same_num x s a \<Longrightarrow> float_eq x (Finite s a)"
  by (auto simp: same_num_def signed_def)

lemma same_num_int_eq: "same_num x (n < 0) (of_int \<bar>n\<bar>) \<Longrightarrow> int_float_eq n x"
  by (auto simp: same_num_def signed_def)

lemma exact_numE:
  assumes "exact_num v"
  obtains s a where "py_float v = Inr (Finite s a)" "is_double (Finite s a)"
    "\<And>x. same_num x s a \<Longrightarrow> py_eq (PyFloat x) v"
proof (cases v)
  case (PyInt n)
  with assms have f: "py_float v = Inr (Finite (n < 0) (of_int \<bar>n\<bar>))" by simp
  then have "mk_double (n < 0) (of_int \<bar>n\<bar>) = Finite (n < 0) (of_int \<bar>n\<bar>)"
    using PyInt by (auto split: double.splits)
  then have "is_double (Finite (n < 0) (of_int \<bar>n\<bar>))"
    by (auto simp: mk_double_def Let_def split: if_splits)
  moreover have "py_eq (PyFloat x) v" if "same_num x (n < 0) (of_int \<bar>n\<bar>)" for x
    using that PyInt by (simp add: same_num_int_eq)
  ultimately show ?thesis using f that by blast
next
  case (PyFloat x)
  with assms obtain s a where x: "x = Finite s a" by (cases x) auto
  with assms PyFloat have "is_double (Finite s a)" by simp
  moreover have "py_eq (PyFloat y) v" if "same_num y s a" for y
    using that PyFloat x by (simp add: same_num_float_eq)
  ultimately show ?thesis using PyFloat x that by auto
qed (use assms in auto)

lemma sum3_first:
  assumes "is_double (Finite s a)" "same_num p s a" "is_zero q" "is_zero r"
  shows "same_num (float_add (float_add (float_add (Finite False 0) p) q) r) s a"
  by (intro add_same_zero add_zero_same assms is_zero_0)

lemma sum3_second:
  assumes "is_double (Finite s a)" "is_zero p" "same_num q s a" "is_zero r"
  shows "same_num (float_add (float_add (float_add (Finite False 0) p) q) r) s a"
  by (intro add_same_zero[OF assms(1) _ assms(4)] add_zero_same[OF assms(1) _ assms(3)]
      add_zero_zero[OF is_zero_0 assms(2)])

lemma sum3_third:
  assumes "is_double (Finite s a)" "is_zero p" "is_zero q" "same_num r s a"
  shows "same_num (float_add (float_add (float_add (Finite False 0) p) q) r) s a"
  by (intro add_zero_same[OF assms(1) _ assms(4)] add_zero_zero is_zero_0 assms)

lemma unit_row_dot0:
  "is_double (Finite s0 a0) \<Longrightarrow>
   same_num (float_add (float_add (float_add (Finite False 0)
      (float_mul (Finite False 1) (Finite s0 a0))) (float_mul (Finite False 0) (Finite s1 a1)))
      (float_mul (Finite False 0) (Finite s2 a2))) s0 a0"
  by (rule sum3_first) (auto intro: mul_one_l mul_zero_l is_zero_0
      simp del: float_mul.simps is_double.simps)

lemma unit_row_dot1:
  "is_double (Finite s1 a1) \<Longrightarrow>
   same_num (float_add (float_add (float_add (Finite False 0)
      (float_mul (Finite False 0) (Finite s0 a0))) (float_mul (Finite False 1) (Finite s1 a1)))
      (float_mul (Finite False 0) (Finite s2 a2))) s1 a1"
  by (rule sum3_second) (auto intro: mul_one_l mul_zero_l is_zero_0
      simp del: float_mul.simps is_double.simps)

lemma unit_row_dot2:
  "is_double (Finite s2 a2) \<Longrightarrow>
   same_num (float_add (float_add (float_add (Finite False 0)
      (float_mul (Finite False 0) (Finite s0 a0))) (float_mul (Finite False 0) (Finite s1 a1)))
      (float_mul (Finite False 1) (Finite s2 a2))) s2 a2"
  by (rule sum3_third) (auto intro: mul_one_l mul_zero_l is_zero_0
      simp del: float_mul.simps is_double.simps)

lemma dot_unit_col0:
  "is_double (Finite s0 a0) \<Longrightarrow>
   same_num (float_add (float_add (float_add (Finite False 0)
      (float_mul (Finite s0 a0) (Finite False 1))) (float_mul (Finite s1 a1) (Finite False 0)))
      (float_mul (Finite s2 a2) (Finite False 0))) s0 a0"
  by (rule sum3_first) (auto intro: mul_one_r mul_zero_r is_zero_0
      simp del: float_mul.simps is_double.simps)

lemma dot_unit_col1:
  "is_double (Finite s1 a1) \<Longrightarrow>
   same_num (float_add (float_add (float_add (Finite False 0)
      (float_mul (Finite s0 a0) (Finite False 0))) (float_mul (Finite s1 a1) (Finite False 1)))
      (float_mul (Finite s2 a2) (Finite False 0))) s1 a1"
  by (rule sum3_second) (auto intro: mul_one_r mul_zero_r is_zero_0
      simp del: float_mul.simps is_double.simps)

lemma dot_unit_col2:
  "is_double (Finite s2 a2) \<Longrightarrow>
   same_num (float_add (float_add (float_add (Finite False 0)
      (float_mul (Finite s0 a0) (Finite False 0))) (float_mul (Finite s1 a1) (Finite False 0)))
      (float_mul (Finite s2 a2) (Finite False 1))) s2 a2"
  by (rule sum3_third) (auto intro: mul_one_r mul_zero_r is_zero_0
      simp del: float_mul.simps is_double.simps)

lemma unit_row_dot:
  assumes i: "i < 3"
    and y: "y 0 = Finite s0 a0" "y 1 = Finite s1 a1" "y 2 = Finite s2 a2"
    and d: "is_double (y i)"
  shows "\<exists>p. sum_of_products unit_entry (\<lambda>k j. y k) i j = PyFloat p
           \<and> (\<forall>s a. y i = Finite s a \<longrightarrow> same_num p s a)"
proof -
  from i consider "i = 0" | "i = 1" | "i = 2" by linarith
  then show ?thesis
  proof cases
    case 1
    then show ?thesis using y d unit_row_dot0[of s0 a0 s1 a1 s2 a2]
      by (simp add: sum_of_products_def unit_entry_def
          del: float_mul.simps float_add.simps is_double.simps)
  next
    case 2
    then show ?thesis using y d unit_row_dot1[of s1 a1 s0 a0 s2 a2]
      by (simp add: sum_of_products_def unit_entry_def
          del: float_mul.simps float_add.simps is_double.simps)
  next
    case 3
    then show ?thesis using y d unit_row_dot2[of s2 a2 s0 a0 s1 a1]
      by (simp add: sum_of_products_def unit_entry_def
          del: float_mul.simps float_add.simps is_double.simps)
  qed
qed

lemma dot_unit_col:
  assumes j: "j < 3"
    and y: "y 0 = Finite s0 a0" "y 1 = Finite s1 a1" "y 2 = Finite s2 a2"
    and d: "is_double (y j)"
  shows "\<exists>p. sum_of_products (\<lambda>i k. y k) unit_entry i j = PyFloat p
           \<and> (\<forall>s a. y j = Finite s a \<longrightarrow> same_num p s a)"
proof -
  from j consider "j = 0" | "j = 1" | "j = 2" by linarith
  then show ?thesis
  proof cases
    case 1
    then show ?thesis using y d dot_unit_col0[of s0 a0 s1 a1 s2 a2]
      by (simp add: sum_of_products_def unit_entry_def
          del: float_mul.simps float_add.simps is_double.simps)
  next
    case 2
    then show ?thesis using y d dot_unit_col1[of s1 a1 s0 a0 s2 a2]
      by (simp add: sum_of_products_def unit_entry_def
          del: float_mul.simps float_add.simps is_double.simps)
  next
    case 3
    then show ?thesis using y d dot_unit_col2[of s2 a2 s0 a0 s1 a1]
      by (simp add: sum_of_products_def unit_entry_def
          del: float_mul.simps float_add.simps is_double.simps)
  qed
qed

subsection \<open>The identity law\<close>

lemma grid3x3_grid_of:
  assumes "grid3x3 P m"
  shows "values_m m = grid_of (\<lambda>i k. values_m m ! i ! k)"
    and "i < 3 \<Longrightarrow> k < 3 \<Longrightarrow> P (values_m m ! i ! k)"
proof -
  from assms have l: "length (values_m m) = 3"
    and r: "\<And>row. row \<in> set (values_m m) \<Longrightarrow> length row = 3 \<and> (\<forall>v \<in> set row. P v)"
    by (auto simp: grid3x3_def)
  have rows: "values_m m ! i \<in> set (values_m m)" if "i < 3" for i
    using that l by simp
  have "values_m m = [values_m m ! 0, values_m m ! 1, values_m m ! 2]"
    by (rule length3_nth[OF l])
  moreover have "values_m m ! 0 = [values_m m ! 0 ! 0, values_m m ! 0 ! 1, values_m m ! 0 ! 2]"
    using r[OF rows[of 0]] by (intro length3_nth) simp
  moreover have "values_m m ! 1 = [values_m m ! 1 ! 0, values_m m ! 1 ! 1, values_m m ! 1 ! 2]"
    using r[OF rows[of 1]] by (intro length3_nth) simp
  moreover have "values_m m ! 2 = [values_m m ! 2 ! 0, values_m m ! 2 ! 1, values_m m ! 2 ! 2]"
    using r[OF rows[of 2]] by (intro length3_nth) simp
  ultimately show "values_m m = grid_of (\<lambda>i k. values_m m ! i ! k)"
    unfolding grid_of_def by metis
  show "P (values_m m ! i ! k)" if "i < 3" "k < 3"
    using r[OF rows[OF that(1)]] that(2) by simp
qed

lemma shorthand_grid_of:
  "values_m m = grid_of g \<Longrightarrow> shorthand m = Inr [g 0 0, g 0 1, g 1 0, g 1 1, g 2 0, g 2 1]"
  by (simp add: shorthand_def PdfMatrix_a_def PdfMatrix_b_def PdfMatrix_c_def PdfMatrix_d_def
      PdfMatrix_e_def PdfMatrix_f_def cell_def nth_err_def grid_of_def)

lemma identity_grid:
  "identity = Inr \<lparr>values_m = grid_of (\<lambda>i k. PyInt (if i = k then 1 else 0))\<rparr>"
  by (simp add: identity_def PdfMatrix_init_def grid_of_def)

lemma py_float_unit: "py_float (PyInt (if i = k then 1 else 0)) = Inr (unit_entry i k)"
  using py_float_0 py_float_1 by (simp add: unit_entry_def del: py_float.simps)

lemma identity_products:
  assumes "grid3x3 exact_num M"
  shows "\<exists>gl gr.
      matmul \<lparr>values_m = grid_of (\<lambda>i k. PyInt (if i = k then 1 else 0))\<rparr> M
        = Inr \<lparr>values_m = grid_of gl\<rparr>
    \<and> matmul M \<lparr>values_m = grid_of (\<lambda>i k. PyInt (if i = k then 1 else 0))\<rparr>
        = Inr \<lparr>values_m = grid_of gr\<rparr>
    \<and> (\<forall>i < 3. \<forall>j < 3. py_eq (gl i j) (values_m M ! i ! j) \<and> py_eq (gr i j) (values_m M ! i ! j))"
proof -
  define m where "m = (\<lambda>i k. values_m M ! i ! k)"
  define x where "x i k = (case py_float (m i k) of Inr v \<Rightarrow> v | Inl err \<Rightarrow> NaN)" for i k
  let ?I = "\<lparr>values_m = grid_of (\<lambda>i k. PyInt (if i = k then 1 else 0))\<rparr>"
  let ?L = "\<lparr>values_m = grid_of (sum_of_products unit_entry x)\<rparr>"
  let ?R = "\<lparr>values_m = grid_of (sum_of_products x unit_entry)\<rparr>"
  have M: "values_m M = grid_of m"
    using grid3x3_grid_of(1)[OF assms] by (simp add: m_def)
  have ex: "\<exists>s a. py_float (m i k) = Inr (Finite s a) \<and> x i k = Finite s a
      \<and> is_double (Finite s a) \<and> (\<forall>p. same_num p s a \<longrightarrow> py_eq (PyFloat p) (m i k))"
    if "i < 3" "k < 3" for i k
  proof -
    have "exact_num (m i k)" using grid3x3_grid_of(2)[OF assms that] by (simp add: m_def)
    then show ?thesis by (rule exact_numE) (auto simp: x_def)
  qed
  have fx: "py_float (m i k) = Inr (x i k)" if "i < 3" "k < 3" for i k
    using ex[OF that] by auto
  have fin: "\<exists>s a. x i k = Finite s a" if "i < 3" "k < 3" for i k
    using ex[OF that] by blast
  have dbl: "is_double (x i k)" if "i < 3" "k < 3" for i k
    using ex[OF that] by force
  have eq: "py_eq (PyFloat p) (m i k)"
    if "i < 3" "k < 3" "\<forall>s a. x i k = Finite s a \<longrightarrow> same_num p s a" for i k p
    using ex[OF that(1,2)] that(3) by force
  have L: "matmul ?I M = Inr ?L"
    by (rule matmul_grid_of[where a = "\<lambda>i k. PyInt (if i = k then 1 else 0)" and b = m])
      (simp_all add: M py_float_unit fx del: py_float.simps)
  have R: "matmul M ?I = Inr ?R"
    by (rule matmul_grid_of[where b = "\<lambda>i k. PyInt (if i = k then 1 else 0)" and a = m])
      (simp_all add: M py_float_unit fx del: py_float.simps)
  have eL: "py_eq (sum_of_products unit_entry x i j) (m i j)" if ij: "i < 3" "j < 3" for i j
  proof -
    obtain s0 a0 s1 a1 s2 a2 where y: "x 0 j = Finite s0 a0" "x 1 j = Finite s1 a1"
      "x 2 j = Finite s2 a2"
      using fin[of 0 j] fin[of 1 j] fin[of 2 j] ij(2) by auto
    have "sum_of_products unit_entry x i j = sum_of_products unit_entry (\<lambda>k j'. x k j) i j"
      by (simp add: sum_of_products_def)
    with unit_row_dot[of i "\<lambda>k. x k j", OF ij(1) y dbl[OF ij], of j] eq[OF ij]
    show ?thesis by force
  qed
  have eR: "py_eq (sum_of_products x unit_entry i j) (m i j)" if ij: "i < 3" "j < 3" for i j
  proof -
    obtain s0 a0 s1 a1 s2 a2 where y: "x i 0 = Finite s0 a0" "x i 1 = Finite s1 a1"
      "x i 2 = Finite s2 a2"
      using fin[of i 0] fin[of i 1] fin[of i 2] ij(1) by auto
    have "sum_of_products x unit_entry i j = sum_of_products (\<lambda>i' k. x i k) unit_entry i j"
      by (simp add: sum_of_products_def)
    with dot_unit_col[of j "\<lambda>k. x i k", OF ij(2) y dbl[OF ij], of i] eq[OF ij]
    show ?thesis by force
  qed
  from L R eL eR show ?thesis unfolding m_def by blast
qed

text \<open>
  C6 (as amended). For every instance \<open>M\<close> whose grid has three rows of three finite numbers
  that \<^verbatim>\<open>float\<close> leaves unchanged (finite floats, ints that are binary64 values), valid
  ones included, \<^verbatim>\<open>identity() @ M == M\<close> and \<^verbatim>\<open>M @ identity() == M\<close>, with the equality of
  the class.
\<close>

theorem identity_law:
  assumes "grid3x3 exact_num M"
  shows "\<exists>I L R. identity = Inr I
    \<and> matmul I M = Inr L \<and> PdfMatrix_eq L (Obj M) = Inr True
    \<and> matmul M I = Inr R \<and> PdfMatrix_eq R (Obj M) = Inr True"
proof -
  let ?I = "\<lparr>values_m = grid_of (\<lambda>i k. PyInt (if i = k then 1 else 0))\<rparr>"
  from identity_products[OF assms] obtain gl gr where
    L: "matmul ?I M = Inr \<lparr>values_m = grid_of gl\<rparr>"
    and R: "matmul M ?I = Inr \<lparr>values_m = grid_of gr\<rparr>"
    and e: "\<And>i j. i < 3 \<Longrightarrow> j < 3 \<Longrightarrow>
      py_eq (gl i j) (values_m M ! i ! j) \<and> py_eq (gr i j) (values_m M ! i ! j)"
    by blast
  note M = grid3x3_grid_of(1)[OF assms]
  have "PdfMatrix_eq \<lparr>values_m = grid_of gl\<rparr> (Obj M) = Inr True"
    using e[of 0 0] e[of 0 1] e[of 1 0] e[of 1 1] e[of 2 0] e[of 2 1]
    by (simp add: PdfMatrix_eq_def shorthand_grid_of[OF M]
        shorthand_grid_of[of "\<lparr>values_m = grid_of gl\<rparr>" gl])
  moreover have "PdfMatrix_eq \<lparr>values_m = grid_of gr\<rparr> (Obj M) = Inr True"
    using e[of 0 0] e[of 0 1] e[of 1 0] e[of 1 1] e[of 2 0] e[of 2 1]
    by (simp add: PdfMatrix_eq_def shorthand_grid_of[OF M]
        shorthand_grid_of[of "\<lparr>values_m = grid_of gr\<rparr>" gr])
  ultimately show ?thesis using identity_grid L R by blast
qed

subsection \<open>The items of a product\<close>

lemma less3: "i < (3::nat) \<Longrightarrow> i = 0 \<or> i = 1 \<or> i = 2"
  by arith


lemma cell_grid_of: "values_m m = grid_of g \<Longrightarrow> i < 3 \<Longrightarrow> j < 3 \<Longrightarrow> cell m i j = Inr (g i j)"
  by (drule less3, drule less3) (auto simp: cell_def nth_err_def grid_of_def)


lemma py_float_3: "py_float (PyInt 3) = Inr (Finite False 3)"
  by (simp add: round_eval)

lemma py_float_5: "py_float (PyInt 5) = Inr (Finite False 5)"
  by (simp add: round_eval)



theorem identity_law_witness:
  "grid3x3 exact_num \<lparr>values_m = [[PyFloat (Finite False 2), PyInt 0, PyInt 0],
                                     [PyInt 0, PyFloat (Finite True 3), PyInt 0],
                                     [PyInt 5, PyInt (- 3), PyInt 1]]\<rparr>
   \<and> (\<exists>I L R. identity = Inr I
      \<and> matmul I \<lparr>values_m = [[PyFloat (Finite False 2), PyInt 0, PyInt 0],
                                     [PyInt 0, PyFloat (Finite True 3), PyInt 0],
                                     [PyInt 5, PyInt (- 3), PyInt 1]]\<rparr> = Inr L
      \<and> PdfMatrix_eq L (Obj \<lparr>values_m = [[PyFloat (Finite False 2), PyInt 0, PyInt 0],
                                     [PyInt 0, PyFloat (Finite True 3), PyInt 0],
                                     [PyInt 5, PyInt (- 3), PyInt 1]]\<rparr>) = Inr True
      \<and> matmul \<lparr>values_m = [[PyFloat (Finite False 2), PyInt 0, PyInt 0],
                                     [PyInt 0, PyFloat (Finite True 3), PyInt 0],
                                     [PyInt 5, PyInt (- 3), PyInt 1]]\<rparr> I = Inr R
      \<and> PdfMatrix_eq R (Obj \<lparr>values_m = [[PyFloat (Finite False 2), PyInt 0, PyInt 0],
                                     [PyInt 0, PyFloat (Finite True 3), PyInt 0],
                                     [PyInt 5, PyInt (- 3), PyInt 1]]\<rparr>) = Inr True)"
proof -
  have r: "round_mag 2 = 2" "round_mag 3 = 3"
    by (simp_all add: round_eval)
  have g: "grid3x3 exact_num \<lparr>values_m = [[PyFloat (Finite False 2), PyInt 0, PyInt 0],
                                     [PyInt 0, PyFloat (Finite True 3), PyInt 0],
                                     [PyInt 5, PyInt (- 3), PyInt 1]]\<rparr>"
    using py_float_0 py_float_1 py_float_5 py_float_neg3 r
    by (simp add: grid3x3_def del: py_float.simps(2))
  from identity_law[OF g] g show ?thesis by blast
qed

text \<open>
  The law as stated fails on a valid instance with an infinite coefficient:
  \<^verbatim>\<open>0.0 * inf\<close> is NaN, so \<^verbatim>\<open>identity() @ PdfMatrix(inf, 0, 0, 1, 0, 0)\<close> has NaN for \<open>c\<close> and
  \<open>e\<close> and is not equal to its right operand.
\<close>

theorem identity_law_counterexample:
  "PdfMatrix_init [Val (PyFloat (Infinity False)), Val (PyInt 0), Val (PyInt 0),
                   Val (PyInt 1), Val (PyInt 0), Val (PyInt 0)]
     = Inr \<lparr>values_m = [[PyFloat (Infinity False), PyFloat (Finite False 0), PyInt 0],
                         [PyFloat (Finite False 0), PyFloat (Finite False 1), PyInt 0],
                         [PyFloat (Finite False 0), PyFloat (Finite False 0), PyInt 1]]\<rparr>
   \<and> valid \<lparr>values_m = [[PyFloat (Infinity False), PyFloat (Finite False 0), PyInt 0],
                         [PyFloat (Finite False 0), PyFloat (Finite False 1), PyInt 0],
                         [PyFloat (Finite False 0), PyFloat (Finite False 0), PyInt 1]]\<rparr>
   \<and> identity = Inr \<lparr>values_m = [[PyInt 1, PyInt 0, PyInt 0], [PyInt 0, PyInt 1, PyInt 0],
                                    [PyInt 0, PyInt 0, PyInt 1]]\<rparr>
   \<and> matmul \<lparr>values_m = [[PyInt 1, PyInt 0, PyInt 0], [PyInt 0, PyInt 1, PyInt 0],
                          [PyInt 0, PyInt 0, PyInt 1]]\<rparr>
        \<lparr>values_m = [[PyFloat (Infinity False), PyFloat (Finite False 0), PyInt 0],
                         [PyFloat (Finite False 0), PyFloat (Finite False 1), PyInt 0],
                         [PyFloat (Finite False 0), PyFloat (Finite False 0), PyInt 1]]\<rparr>
     = Inr \<lparr>values_m = [[PyFloat (Infinity False), PyFloat (Finite False 0), PyFloat (Finite False 0)],
                         [PyFloat NaN, PyFloat (Finite False 1), PyFloat (Finite False 0)],
                         [PyFloat NaN, PyFloat (Finite False 0), PyFloat (Finite False 1)]]\<rparr>
   \<and> PdfMatrix_eq
        \<lparr>values_m = [[PyFloat (Infinity False), PyFloat (Finite False 0), PyFloat (Finite False 0)],
                         [PyFloat NaN, PyFloat (Finite False 1), PyFloat (Finite False 0)],
                         [PyFloat NaN, PyFloat (Finite False 0), PyFloat (Finite False 1)]]\<rparr>
        (Obj \<lparr>values_m = [[PyFloat (Infinity False), PyFloat (Finite False 0), PyInt 0],
                         [PyFloat (Finite False 0), PyFloat (Finite False 1), PyInt 0],
                         [PyFloat (Finite False 0), PyFloat (Finite False 0), PyInt 1]]\<rparr>)
     = Inr False"
  using py_float_0 py_float_1
  by (simp add: matmul_def zip_star_def upt_rec dot_def PdfMatrix_init_def identity_def
      nth_err_def signed_def mk_double_def round_mag_1 valid_def third_column_def cell_def
      PdfMatrix_eq_def shorthand_def PdfMatrix_a_def PdfMatrix_b_def PdfMatrix_c_def
      PdfMatrix_d_def PdfMatrix_e_def PdfMatrix_f_def
      del: py_float.simps(2))

subsection \<open>The third column\<close>

lemma is_zero_py_eq: "is_zero z \<Longrightarrow> py_eq (PyFloat z) (PyInt 0)"
  by (auto simp: is_zero_def signed_def)

lemma wf_zero:
  assumes "wf_num v" "py_eq v (PyInt 0)"
  shows "\<exists>z. py_float v = Inr z \<and> is_zero z"
proof (cases v)
  case (PyInt n)
  with assms have "n = 0" by simp
  with PyInt show ?thesis using py_float_0 is_zero_0 by auto
next
  case (PyFloat x)
  with assms show ?thesis
    by (cases x) (auto simp: is_zero_def signed_def split: if_splits)
qed (use assms in auto)

lemma wf_one:
  assumes "wf_num v" "py_eq v (PyInt 1)"
  shows "py_float v = Inr (Finite False 1)"
proof (cases v)
  case (PyInt n)
  with assms have "n = 1" by simp
  with PyInt show ?thesis using py_float_1 by auto
next
  case (PyFloat x)
  with assms show ?thesis
    by (cases x) (auto simp: signed_def split: if_splits)
qed (use assms in auto)

lemma finite_num_wf: "finite_num v \<Longrightarrow> wf_num v"
  by (cases v) auto

lemma not_isl_Inr: "\<not> isl r \<Longrightarrow> \<exists>y. r = Inr y"
  by (cases r) auto

lemma wf_num_float: "wf_num v \<Longrightarrow> \<exists>x. py_float v = Inr x"
  by (cases v) (auto simp del: py_float.simps(2) dest: not_isl_Inr)

lemma finite_num_float: "finite_num v \<Longrightarrow> \<exists>s a. py_float v = Inr (Finite s a)"
proof (cases v)
  case (PyInt n)
  assume "finite_num v"
  with PyInt show ?thesis
    by (auto simp: mk_double_def Let_def split: if_splits)
next
  case (PyFloat x)
  assume "finite_num v"
  with PyFloat show ?thesis by (cases x) auto
qed auto

lemma mk_double_1: "mk_double False 1 = Finite False 1"
  by (simp add: mk_double_def round_mag_1)

lemma third_sum_zero:
  assumes "is_zero y0" "is_zero y1" "is_zero x2"
  shows "is_zero (float_add (float_add (float_add (Finite False 0)
      (float_mul (Finite s0 a0) y0)) (float_mul (Finite s1 a1) y1)) (float_mul x2 (Finite False 1)))"
proof -
  have "is_zero (float_mul x2 (Finite False 1))"
    using assms(3) by (auto simp: is_zero_def mk_double_def)
  then show ?thesis
    by (intro add_zero_zero is_zero_0 mul_zero_r assms)
qed

lemma third_sum_one:
  assumes "is_zero y0" "is_zero y1"
  shows "float_add (float_add (float_add (Finite False 0)
      (float_mul (Finite s0 a0) y0)) (float_mul (Finite s1 a1) y1))
      (float_mul (Finite False 1) (Finite False 1)) = Finite False 1"
proof -
  have "is_zero (float_add (float_add (Finite False 0)
      (float_mul (Finite s0 a0) y0)) (float_mul (Finite s1 a1) y1))"
    by (intro add_zero_zero is_zero_0 mul_zero_r assms)
  then show ?thesis
    by (auto simp: is_zero_def signed_def mk_double_1)
qed

lemma valid_grid_of:
  "values_m m = grid_of g \<Longrightarrow>
   valid m \<longleftrightarrow> py_eq (g 0 2) (PyInt 0) \<and> py_eq (g 1 2) (PyInt 0) \<and> py_eq (g 2 2) (PyInt 1)"
  by (simp add: valid_def third_column_def cell_grid_of)

lemma product_valid:
  assumes A: "values_m A = grid_of a" and B: "values_m B = grid_of b"
    and fa: "\<And>i k. i < 3 \<Longrightarrow> k < 3 \<Longrightarrow> finite_num (a i k)"
    and fb: "\<And>i k. i < 3 \<Longrightarrow> k < 3 \<Longrightarrow> \<exists>v. py_float (b i k) = Inr v"
    and wb: "wf_num (b 0 2)" "wf_num (b 1 2)" "wf_num (b 2 2)"
    and vA: "valid A" and vB: "valid B"
  shows "\<exists>C. matmul A B = Inr C \<and> valid C"
proof -
  define x where "x = (\<lambda>i k. case py_float (a i k) of Inr v \<Rightarrow> v | Inl err \<Rightarrow> NaN)"
  define y where "y = (\<lambda>i k. case py_float (b i k) of Inr v \<Rightarrow> v | Inl err \<Rightarrow> NaN)"
  let ?C = "\<lparr>values_m = grid_of (sum_of_products x y)\<rparr>"
  have fx: "py_float (a i k) = Inr (x i k)" if "i < 3" "k < 3" for i k
    using finite_num_float[OF fa[OF that]] by (auto simp: x_def)
  have fy: "py_float (b i k) = Inr (y i k)" if "i < 3" "k < 3" for i k
    using fb[OF that] by (auto simp: y_def)
  have finx: "\<exists>s r. x i k = Finite s r" if "i < 3" "k < 3" for i k
    using finite_num_float[OF fa[OF that]] fx[OF that] by auto
  from vA A have pa: "py_eq (a 0 2) (PyInt 0)" "py_eq (a 1 2) (PyInt 0)" "py_eq (a 2 2) (PyInt 1)"
    by (simp_all add: valid_grid_of)
  from vB B have pb: "py_eq (b 0 2) (PyInt 0)" "py_eq (b 1 2) (PyInt 0)" "py_eq (b 2 2) (PyInt 1)"
    by (simp_all add: valid_grid_of)
  have x2: "is_zero (x 0 2)" "is_zero (x 1 2)" "x 2 2 = Finite False 1"
    using wf_zero[OF finite_num_wf[OF fa[of 0 2]] pa(1)] wf_zero[OF finite_num_wf[OF fa[of 1 2]] pa(2)]
      wf_one[OF finite_num_wf[OF fa[of 2 2]] pa(3)] fx[of 0 2] fx[of 1 2] fx[of 2 2]
    by auto
  have y2: "is_zero (y 0 2)" "is_zero (y 1 2)" "y 2 2 = Finite False 1"
    using wf_zero[OF wb(1) pb(1)] wf_zero[OF wb(2) pb(2)] wf_one[OF wb(3) pb(3)]
      fy[of 0 2] fy[of 1 2] fy[of 2 2]
    by auto
  have m: "matmul A B = Inr ?C"
    by (rule matmul_grid_of[OF A B]) (simp_all add: fx fy del: py_float.simps)
  have z: "\<exists>z. sum_of_products x y i 2 = PyFloat z \<and> is_zero z"
    if i: "i < 3" and xi: "is_zero (x i 2)" for i
  proof -
    obtain s0 a0 s1 a1 where "x i 0 = Finite s0 a0" "x i 1 = Finite s1 a1"
      using finx[of i 0] finx[of i 1] i by auto
    then show ?thesis
      using third_sum_zero[OF y2(1) y2(2) xi, of s0 a0 s1 a1] y2(3)
      by (simp add: sum_of_products_def del: float_mul.simps float_add.simps)
  qed
  have one: "sum_of_products x y 2 2 = PyFloat (Finite False 1)"
  proof -
    obtain s0 a0 s1 a1 where "x 2 0 = Finite s0 a0" "x 2 1 = Finite s1 a1"
      using finx[of 2 0] finx[of 2 1] by auto
    then show ?thesis
      using third_sum_one[OF y2(1) y2(2), of s0 a0 s1 a1] y2(3) x2(3)
      by (simp add: sum_of_products_def del: float_mul.simps float_add.simps)
  qed
  have "valid ?C"
    using z[of 0] z[of 1] x2 one
    by (auto simp add: valid_grid_of[of ?C "sum_of_products x y"] is_zero_def signed_def)
  with m show ?thesis by blast
qed

lemma matmul_valid:
  assumes "grid3x3 finite_num A" "valid A" "grid3x3 wf_num B" "valid B"
  shows "\<exists>C. matmul A B = Inr C \<and> valid C"
proof (rule product_valid[OF grid3x3_grid_of(1)[OF assms(1)] grid3x3_grid_of(1)[OF assms(3)]])
  show "finite_num (values_m A ! i ! k)" if "i < 3" "k < 3" for i k
    by (rule grid3x3_grid_of(2)[OF assms(1) that])
  show "\<exists>v. py_float (values_m B ! i ! k) = Inr v" if "i < 3" "k < 3" for i k
    by (rule wf_num_float[OF grid3x3_grid_of(2)[OF assms(3) that]])
  show "wf_num (values_m B ! 0 ! 2)" "wf_num (values_m B ! 1 ! 2)" "wf_num (values_m B ! 2 ! 2)"
    by (simp_all add: grid3x3_grid_of(2)[OF assms(3)])
qed (rule assms)+

lemma six_grid:
  "values_m \<lparr>values_m = [[PyFloat p, PyFloat q, PyInt 0], [PyFloat r, PyFloat s, PyInt 0],
                           [PyFloat t, PyFloat u, PyInt 1]]\<rparr>
     = grid_of (\<lambda>i k. [[PyFloat p, PyFloat q, PyInt 0], [PyFloat r, PyFloat s, PyInt 0],
                           [PyFloat t, PyFloat u, PyInt 1]] ! i ! k)"
  by (simp add: grid_of_def)

lemma matmul_six_valid:
  assumes "grid3x3 finite_num A" "valid A"
  shows "\<exists>C. matmul A \<lparr>values_m = [[PyFloat p, PyFloat q, PyInt 0], [PyFloat r, PyFloat s, PyInt 0],
                           [PyFloat t, PyFloat u, PyInt 1]]\<rparr> = Inr C \<and> valid C"
proof (rule product_valid[OF grid3x3_grid_of(1)[OF assms(1)] six_grid])
  show "finite_num (values_m A ! i ! k)" if "i < 3" "k < 3" for i k
    by (rule grid3x3_grid_of(2)[OF assms(1) that])
  show "\<exists>v. py_float ([[PyFloat p, PyFloat q, PyInt 0], [PyFloat r, PyFloat s, PyInt 0],
                           [PyFloat t, PyFloat u, PyInt 1]] ! i ! k) = Inr v" if "i < 3" "k < 3" for i k
    using less3[OF that(1)] less3[OF that(2)] py_float_0 py_float_1
    by (auto simp del: py_float.simps(2))
  show "valid \<lparr>values_m = [[PyFloat p, PyFloat q, PyInt 0], [PyFloat r, PyFloat s, PyInt 0],
                           [PyFloat t, PyFloat u, PyInt 1]]\<rparr>"
    by (simp add: valid_grid_of[OF six_grid])
qed (use assms py_float_0 py_float_1 in \<open>simp_all del: py_float.simps(2)\<close>)

lemma from_six_valid: "from_six fs = Inr m \<Longrightarrow> valid m"
  by (cases fs rule: from_six.cases)
    (auto simp: valid_def third_column_def cell_def nth_err_def)

lemma from_six_grid:
  "from_six [p, q, r, s, t, u] =
     Inr \<lparr>values_m = [[PyFloat p, PyFloat q, PyInt 0], [PyFloat r, PyFloat s, PyInt 0],
                       [PyFloat t, PyFloat u, PyInt 1]]\<rparr>"
  by simp

lemma init_rotation:
  "PdfMatrix_init [Val (PyTuple [PyFloat p, PyFloat q, PyFloat r, PyFloat s, PyInt 0, PyInt 0])] =
     Inr \<lparr>values_m = [[PyFloat p, PyFloat q, PyInt 0], [PyFloat r, PyFloat s, PyInt 0],
                       [PyFloat (Finite False 0), PyFloat (Finite False 0), PyInt 1]]\<rparr>"
  using py_float_0 by (simp add: PdfMatrix_init_def del: py_float.simps(2))

text \<open>
  C2 (as amended). The third column is \<^verbatim>\<open>(0, 0, 1)\<close> for every instance that the
  no-argument constructor (or \<^verbatim>\<open>identity\<close>), the six-scalar constructor or the
  six-sequence constructor returns. A copy has the grid of its source, so it is valid
  exactly when the source is. The raw-grid path stores the rows as given and enforces
  nothing. \<^verbatim>\<open>compose\<close> of two valid instances with 3x3 numeric grids, the left one with
  finite entries, returns a valid instance; so do \<^verbatim>\<open>scaled\<close>, \<^verbatim>\<open>translated\<close> and \<^verbatim>\<open>rotated\<close>
  of a valid instance with finite entries, for any numbers as arguments (an angle that
  is not infinite).
\<close>

theorem third_column_invariant:
  "(\<exists>I. identity = Inr I \<and> valid I)
   \<and> (length args = 6 \<longrightarrow> PdfMatrix_init args = Inr m \<longrightarrow> valid m)
   \<and> (args' \<noteq> [] \<longrightarrow> length args' \<noteq> 6 \<longrightarrow> hd args' = Val v \<longrightarrow> py_len v = Inr 6 \<longrightarrow>
        PdfMatrix_init args' = Inr m' \<longrightarrow> valid m')
   \<and> (\<exists>c. PdfMatrix_init [Obj src] = Inr c \<and> values_m c = values_m src \<and> (valid c \<longleftrightarrow> valid src))
   \<and> (grid3x3 finite_num A \<longrightarrow> valid A \<longrightarrow> grid3x3 wf_num B \<longrightarrow> valid B \<longrightarrow>
        (\<exists>C. matmul A B = Inr C \<and> valid C))
   \<and> (grid3x3 finite_num A \<longrightarrow> valid A \<longrightarrow> py_float x = Inr fx \<longrightarrow> py_float y = Inr fy \<longrightarrow>
        (\<exists>C. scaled A x y = Inr C \<and> valid C) \<and> (\<exists>C. translated A x y = Inr C \<and> valid C))
   \<and> (grid3x3 finite_num A \<longrightarrow> valid A \<longrightarrow> degrees_to_angle deg = Inr angle \<longrightarrow>
        (\<forall>s. angle \<noteq> Infinity s) \<longrightarrow>
        (\<exists>C. rotated cosf sinf A deg = Inr C \<and> valid C))"
proof -
  have p1: "\<exists>I. identity = Inr I \<and> valid I"
    by (simp add: identity_grid valid_grid_of[of _ "\<lambda>i k. PyInt (if i = k then 1 else 0)"])
  have p2: "valid m" if "length args = 6" "PdfMatrix_init args = Inr m"
  proof -
    from that(1) have "args \<noteq> []" by auto
    with that show ?thesis
      by (auto simp: PdfMatrix_init_def ebind_eq_Inr from_six_valid)
  qed
  have p3: "valid m'" if "args' \<noteq> []" "length args' \<noteq> 6" "hd args' = Val v" "py_len v = Inr 6"
    "PdfMatrix_init args' = Inr m'"
    using that by (auto simp: PdfMatrix_init_def ebind_eq_Inr from_six_valid)
  have p4: "\<exists>c. PdfMatrix_init [Obj src] = Inr c \<and> values_m c = values_m src \<and> (valid c \<longleftrightarrow> valid src)"
    by (simp add: PdfMatrix_init_def valid_def third_column_def cell_def)
  have p5: "\<exists>C. matmul A B = Inr C \<and> valid C"
    if "grid3x3 finite_num A" "valid A" "grid3x3 wf_num B" "valid B"
    using that by (rule matmul_valid)
  have p6: "(\<exists>C. scaled A x y = Inr C \<and> valid C) \<and> (\<exists>C. translated A x y = Inr C \<and> valid C)"
    if "grid3x3 finite_num A" "valid A" "py_float x = Inr fx" "py_float y = Inr fy"
    using that(3,4) matmul_six_valid[OF that(1,2)] py_float_0 py_float_1
    by (simp add: scaled_def translated_def PdfMatrix_init_def del: py_float.simps(2))
  have p7: "\<exists>C. rotated cosf sinf A deg = Inr C \<and> valid C"
    if "grid3x3 finite_num A" "valid A" "degrees_to_angle deg = Inr angle" "\<forall>s. angle \<noteq> Infinity s"
  proof -
    have "math_fn g angle = Inr (g angle)" for g
      using that(4) by (cases angle) auto
    then show ?thesis
      using that(3) matmul_six_valid[OF that(1,2)]
      by (simp add: rotated_def init_rotation del: py_float.simps(2))
  qed
  from p1 p2 p3 p4 p5 p6 p7 show ?thesis by blast
qed

text \<open>
  The claim as stated fails on the raw-grid path, which checks no column:
  \<^verbatim>\<open>PdfMatrix(((1,0,5),(0,1,0),(0,0,1)))\<close> is constructed and its third column is (5, 0, 1).
\<close>

theorem third_column_counterexample:
  "PdfMatrix_init [Val (PyTuple [PyTuple [PyInt 1, PyInt 0, PyInt 5], PyTuple [PyInt 0, PyInt 1, PyInt 0],
                                 PyTuple [PyInt 0, PyInt 0, PyInt 1]])]
     = Inr \<lparr>values_m = [[PyInt 1, PyInt 0, PyInt 5], [PyInt 0, PyInt 1, PyInt 0],
                         [PyInt 0, PyInt 0, PyInt 1]]\<rparr>
   \<and> third_column \<lparr>values_m = [[PyInt 1, PyInt 0, PyInt 5], [PyInt 0, PyInt 1, PyInt 0],
                                [PyInt 0, PyInt 0, PyInt 1]]\<rparr> = Inr [PyInt 5, PyInt 0, PyInt 1]
   \<and> \<not> valid \<lparr>values_m = [[PyInt 1, PyInt 0, PyInt 5], [PyInt 0, PyInt 1, PyInt 0],
                            [PyInt 0, PyInt 0, PyInt 1]]\<rparr>"
  by (simp add: PdfMatrix_init_def nth_err_def valid_def third_column_def cell_def)

lemma round_mag_2: "round_mag 2 = 2"
  by (simp add: round_eval)

lemma round_mag_3: "round_mag 3 = 3"
  by (simp add: round_eval)

lemma angle_0: "degrees_to_angle (PyInt 0) = Inr (Finite False 0)"
  by (simp add: degrees_to_angle_def py_truediv_def signed_def mk_double_def pi_double_def)

theorem third_column_invariant_witness:
  "PdfMatrix_init [Val (PyInt 2), Val (PyInt 0), Val (PyInt 0), Val (PyInt 3), Val (PyInt 1), Val (PyInt 1)]
     = Inr \<lparr>values_m = [[PyFloat (Finite False 2), PyFloat (Finite False 0), PyInt 0],
                         [PyFloat (Finite False 0), PyFloat (Finite False 3), PyInt 0],
                         [PyFloat (Finite False 1), PyFloat (Finite False 1), PyInt 1]]\<rparr>
   \<and> valid \<lparr>values_m = [[PyFloat (Finite False 2), PyFloat (Finite False 0), PyInt 0],
                         [PyFloat (Finite False 0), PyFloat (Finite False 3), PyInt 0],
                         [PyFloat (Finite False 1), PyFloat (Finite False 1), PyInt 1]]\<rparr>
   \<and> grid3x3 finite_num \<lparr>values_m = [[PyFloat (Finite False 2), PyFloat (Finite False 0), PyInt 0],
                         [PyFloat (Finite False 0), PyFloat (Finite False 3), PyInt 0],
                         [PyFloat (Finite False 1), PyFloat (Finite False 1), PyInt 1]]\<rparr>
   \<and> (\<exists>C. matmul \<lparr>values_m = [[PyFloat (Finite False 2), PyFloat (Finite False 0), PyInt 0],
                         [PyFloat (Finite False 0), PyFloat (Finite False 3), PyInt 0],
                         [PyFloat (Finite False 1), PyFloat (Finite False 1), PyInt 1]]\<rparr>
            \<lparr>values_m = [[PyInt 1, PyInt 0, PyInt 0], [PyInt 0, PyInt 1, PyInt 0],
                         [PyInt 0, PyInt 0, PyInt 1]]\<rparr> = Inr C \<and> valid C)
   \<and> (\<exists>C. scaled \<lparr>values_m = [[PyFloat (Finite False 2), PyFloat (Finite False 0), PyInt 0],
                         [PyFloat (Finite False 0), PyFloat (Finite False 3), PyInt 0],
                         [PyFloat (Finite False 1), PyFloat (Finite False 1), PyInt 1]]\<rparr>
            (PyInt 2) (PyFloat (Infinity True)) = Inr C \<and> valid C)
   \<and> (\<exists>C. translated \<lparr>values_m = [[PyFloat (Finite False 2), PyFloat (Finite False 0), PyInt 0],
                         [PyFloat (Finite False 0), PyFloat (Finite False 3), PyInt 0],
                         [PyFloat (Finite False 1), PyFloat (Finite False 1), PyInt 1]]\<rparr>
            (PyInt 2) (PyFloat (Infinity True)) = Inr C \<and> valid C)
   \<and> (\<exists>C. rotated (\<lambda>t. Finite False 1) (\<lambda>t. Finite False 0)
            \<lparr>values_m = [[PyFloat (Finite False 2), PyFloat (Finite False 0), PyInt 0],
                         [PyFloat (Finite False 0), PyFloat (Finite False 3), PyInt 0],
                         [PyFloat (Finite False 1), PyFloat (Finite False 1), PyInt 1]]\<rparr>
            (PyInt 0) = Inr C \<and> valid C)"
proof -
  let ?M = "\<lparr>values_m = [[PyFloat (Finite False 2), PyFloat (Finite False 0), PyInt 0],
                         [PyFloat (Finite False 0), PyFloat (Finite False 3), PyInt 0],
                         [PyFloat (Finite False 1), PyFloat (Finite False 1), PyInt 1]]\<rparr>"
  let ?I = "\<lparr>values_m = [[PyInt 1, PyInt 0, PyInt 0], [PyInt 0, PyInt 1, PyInt 0],
                         [PyInt 0, PyInt 0, PyInt 1]]\<rparr>"
  let ?args = "[Val (PyInt 2), Val (PyInt 0), Val (PyInt 0), Val (PyInt 3), Val (PyInt 1), Val (PyInt 1)]"
  have i: "PdfMatrix_init ?args = Inr ?M"
    using py_float_0 py_float_1 py_float_2 py_float_3
    by (simp add: PdfMatrix_init_def del: py_float.simps(2))
  have g: "grid3x3 finite_num ?M"
    using py_float_0 py_float_1 round_mag_1 round_mag_2 round_mag_3
    by (simp add: grid3x3_def del: py_float.simps(2))
  have gi: "grid3x3 wf_num ?I"
    using py_float_0 py_float_1
    by (simp add: grid3x3_def del: py_float.simps(2))
  have vi: "valid ?I"
    by (simp add: valid_def third_column_def cell_def nth_err_def)
  note t = third_column_invariant [of ?args ?M "[]" PyNone ?M ?M ?M ?I "PyInt 2" "Finite False 2"
      "PyFloat (Infinity True)" "Infinity True" "PyInt 0" "Finite False 0"
      "\<lambda>t. Finite False 1" "\<lambda>t. Finite False 0"]
  from t i have v: "valid ?M" by simp
  from t i g v gi vi py_float_2 angle_0 show ?thesis
    by (simp del: py_float.simps(2))
qed

subsection \<open>No operation writes to an existing instance\<close>

lemma new_frame:
  "PdfMatrix_new h args = Inr (t, h') \<Longrightarrow>
     \<exists>m. PdfMatrix_init args = Inr m \<and> t = length h \<and> h' = h @ [m]"
  by (auto simp: PdfMatrix_new_def alloc_def ebind_eq_Inr)

lemma matmul_h_frame:
  "matmul_h h self other = Inr (r, h') \<Longrightarrow>
     self < length h \<and> other < length h \<and>
     (\<exists>m. matmul (h ! self) (h ! other) = Inr m \<and> r = length h \<and> h' = h @ [m])"
  by (auto simp: matmul_h_def alloc_def ebind_eq_Inr nth_err_def split: if_splits)

lemma two_step_frame:
  assumes "PdfMatrix_new h args = Inr (t, h1)" "matmul_h h1 self t = Inr (r, h')"
  shows "(\<forall>p < length h. h' ! p = h ! p \<and> shorthand (h' ! p) = shorthand (h ! p))
    \<and> length h \<le> r \<and> r < length h'
    \<and> ebind (PdfMatrix_init args) (matmul (h1 ! self)) = Inr (h' ! r)"
proof -
  from new_frame[OF assms(1)] obtain m where m: "PdfMatrix_init args = Inr m" "t = length h"
    "h1 = h @ [m]" by blast
  from matmul_h_frame[OF assms(2)] obtain c where c: "self < length h1"
    "matmul (h1 ! self) (h1 ! t) = Inr c" "r = length h1" "h' = h1 @ [c]" by blast
  have "h' ! p = h ! p" if "p < length h" for p
    using that m c by (simp add: nth_append)
  moreover have "h1 ! t = m" using m by simp
  ultimately show ?thesis using m c by (simp add: nth_append)
qed

text \<open>
  C8. On the heap, \<^verbatim>\<open>M @ other\<close>, \<^verbatim>\<open>M.scaled(x, y)\<close>, \<^verbatim>\<open>M.translated(x, y)\<close> and
  \<^verbatim>\<open>M.rotated(angle)\<close> leave every object that existed before the call as it was, grid and
  shorthand, \<open>M\<close> among them; the result is an object that did not exist before, and it
  holds what the operation computes from \<open>M\<close>.
\<close>

theorem operations_do_not_mutate:
  "(matmul_h h self other = Inr (r, h') \<longrightarrow>
      (\<forall>p < length h. h' ! p = h ! p \<and> shorthand (h' ! p) = shorthand (h ! p))
      \<and> length h \<le> r \<and> r < length h' \<and> matmul (h ! self) (h ! other) = Inr (h' ! r))
   \<and> (scaled_h h self x y = Inr (r, h') \<longrightarrow>
      (\<forall>p < length h. h' ! p = h ! p \<and> shorthand (h' ! p) = shorthand (h ! p))
      \<and> length h \<le> r \<and> r < length h' \<and> (self < length h \<longrightarrow> scaled (h ! self) x y = Inr (h' ! r)))
   \<and> (translated_h h self x y = Inr (r, h') \<longrightarrow>
      (\<forall>p < length h. h' ! p = h ! p \<and> shorthand (h' ! p) = shorthand (h ! p))
      \<and> length h \<le> r \<and> r < length h' \<and> (self < length h \<longrightarrow> translated (h ! self) x y = Inr (h' ! r)))
   \<and> (rotated_h cosf sinf h self deg = Inr (r, h') \<longrightarrow>
      (\<forall>p < length h. h' ! p = h ! p \<and> shorthand (h' ! p) = shorthand (h ! p))
      \<and> length h \<le> r \<and> r < length h'
      \<and> (self < length h \<longrightarrow> rotated cosf sinf (h ! self) deg = Inr (h' ! r)))"
proof -
  have p1: "(\<forall>p < length h. h' ! p = h ! p \<and> shorthand (h' ! p) = shorthand (h ! p))
      \<and> length h \<le> r \<and> r < length h' \<and> matmul (h ! self) (h ! other) = Inr (h' ! r)"
    if "matmul_h h self other = Inr (r, h')"
    using matmul_h_frame[OF that] by (auto simp: nth_append)
  have p2: "(\<forall>p < length h. h' ! p = h ! p \<and> shorthand (h' ! p) = shorthand (h ! p))
      \<and> length h \<le> r \<and> r < length h' \<and> (self < length h \<longrightarrow> scaled (h ! self) x y = Inr (h' ! r))"
    if "scaled_h h self x y = Inr (r, h')"
  proof -
    from that obtain t h1 where
      s: "PdfMatrix_new h [Val (PyTuple [x, PyInt 0, PyInt 0, y, PyInt 0, PyInt 0])] = Inr (t, h1)"
      "matmul_h h1 self t = Inr (r, h')"
      by (auto simp: scaled_h_def ebind_eq_Inr)
    have "h1 ! self = h ! self" if "self < length h"
      using new_frame[OF s(1)] that by (auto simp: nth_append)
    with two_step_frame[OF s] show ?thesis by (auto simp add: scaled_def)
  qed
  have p3: "(\<forall>p < length h. h' ! p = h ! p \<and> shorthand (h' ! p) = shorthand (h ! p))
      \<and> length h \<le> r \<and> r < length h' \<and> (self < length h \<longrightarrow> translated (h ! self) x y = Inr (h' ! r))"
    if "translated_h h self x y = Inr (r, h')"
  proof -
    from that obtain t h1 where
      s: "PdfMatrix_new h [Val (PyTuple [PyInt 1, PyInt 0, PyInt 0, PyInt 1, x, y])] = Inr (t, h1)"
      "matmul_h h1 self t = Inr (r, h')"
      by (auto simp: translated_h_def ebind_eq_Inr)
    have "h1 ! self = h ! self" if "self < length h"
      using new_frame[OF s(1)] that by (auto simp: nth_append)
    with two_step_frame[OF s] show ?thesis by (auto simp add: translated_def)
  qed
  have p4: "(\<forall>p < length h. h' ! p = h ! p \<and> shorthand (h' ! p) = shorthand (h ! p))
      \<and> length h \<le> r \<and> r < length h'
      \<and> (self < length h \<longrightarrow> rotated cosf sinf (h ! self) deg = Inr (h' ! r))"
    if "rotated_h cosf sinf h self deg = Inr (r, h')"
  proof -
    from that obtain angle c s t h1 where
      a: "degrees_to_angle deg = Inr angle" "math_fn cosf angle = Inr c" "math_fn sinf angle = Inr s"
      and s: "PdfMatrix_new h [Val (PyTuple [PyFloat c, PyFloat s, PyFloat (float_neg s),
                                           PyFloat c, PyInt 0, PyInt 0])] = Inr (t, h1)"
      "matmul_h h1 self t = Inr (r, h')"
      by (auto simp: rotated_h_def ebind_eq_Inr)
    have "h1 ! self = h ! self" if "self < length h"
      using new_frame[OF s(1)] that by (auto simp: nth_append)
    with two_step_frame[OF s] a show ?thesis by (auto simp add: rotated_def)
  qed
  from p1 p2 p3 p4 show ?thesis by blast
qed

lemma two_step_total:
  assumes "self < length h" "PdfMatrix_init args = Inr t" "matmul (h ! self) t = Inr c"
  shows "ebind (PdfMatrix_new h args) (\<lambda>(t, h'). matmul_h h' self t)
    = Inr (Suc (length h), h @ [t, c])"
  using assms
  by (simp add: PdfMatrix_new_def alloc_def matmul_h_def nth_err_def nth_append)

lemma matmul_h_total:
  assumes "self < length h" "other < length h" "matmul (h ! self) (h ! other) = Inr c"
  shows "matmul_h h self other = Inr (length h, h @ [c])"
  using assms by (simp add: alloc_def matmul_h_def nth_err_def)

theorem operations_do_not_mutate_witness:
  "(\<exists>r h'. matmul_h [\<lparr>values_m = [[PyInt 1, PyInt 0, PyInt 0], [PyInt 0, PyInt 1, PyInt 0],
                                   [PyInt 0, PyInt 0, PyInt 1]]\<rparr>] 0 0 = Inr (r, h')
      \<and> 1 \<le> r \<and> h' ! 0 = \<lparr>values_m = [[PyInt 1, PyInt 0, PyInt 0], [PyInt 0, PyInt 1, PyInt 0],
                                         [PyInt 0, PyInt 0, PyInt 1]]\<rparr>)
   \<and> (\<exists>r h'. scaled_h [\<lparr>values_m = [[PyInt 1, PyInt 0, PyInt 0], [PyInt 0, PyInt 1, PyInt 0],
                                   [PyInt 0, PyInt 0, PyInt 1]]\<rparr>] 0 (PyInt 2) (PyInt 3) = Inr (r, h')
      \<and> 1 \<le> r \<and> h' ! 0 = \<lparr>values_m = [[PyInt 1, PyInt 0, PyInt 0], [PyInt 0, PyInt 1, PyInt 0],
                                         [PyInt 0, PyInt 0, PyInt 1]]\<rparr>)
   \<and> (\<exists>r h'. translated_h [\<lparr>values_m = [[PyInt 1, PyInt 0, PyInt 0], [PyInt 0, PyInt 1, PyInt 0],
                                   [PyInt 0, PyInt 0, PyInt 1]]\<rparr>] 0 (PyInt 2) (PyInt 3) = Inr (r, h')
      \<and> 1 \<le> r \<and> h' ! 0 = \<lparr>values_m = [[PyInt 1, PyInt 0, PyInt 0], [PyInt 0, PyInt 1, PyInt 0],
                                         [PyInt 0, PyInt 0, PyInt 1]]\<rparr>)
   \<and> (\<exists>r h'. rotated_h (\<lambda>t. Finite False 1) (\<lambda>t. Finite False 0)
               [\<lparr>values_m = [[PyInt 1, PyInt 0, PyInt 0], [PyInt 0, PyInt 1, PyInt 0],
                                   [PyInt 0, PyInt 0, PyInt 1]]\<rparr>] 0 (PyInt 0) = Inr (r, h')
      \<and> 1 \<le> r \<and> h' ! 0 = \<lparr>values_m = [[PyInt 1, PyInt 0, PyInt 0], [PyInt 0, PyInt 1, PyInt 0],
                                         [PyInt 0, PyInt 0, PyInt 1]]\<rparr>)"
proof -
  let ?I = "\<lparr>values_m = [[PyInt 1, PyInt 0, PyInt 0], [PyInt 0, PyInt 1, PyInt 0],
                         [PyInt 0, PyInt 0, PyInt 1]]\<rparr>"
  have g: "grid3x3 finite_num ?I"
    using py_float_0 py_float_1 by (simp add: grid3x3_def del: py_float.simps(2))
  have gw: "grid3x3 wf_num ?I"
    using py_float_0 py_float_1 by (simp add: grid3x3_def del: py_float.simps(2))
  have v: "valid ?I"
    by (simp add: valid_def third_column_def cell_def nth_err_def)
  have six: "\<exists>C. matmul ?I \<lparr>values_m = [[PyFloat p, PyFloat q, PyInt 0], [PyFloat r, PyFloat s, PyInt 0],
                           [PyFloat t, PyFloat u, PyInt 1]]\<rparr> = Inr C" for p q r s t u
    using matmul_six_valid[OF g v] by blast
  obtain c1 where c1: "matmul ?I ?I = Inr c1"
    using matmul_valid[OF g v gw v] by blast
  have m: "matmul_h [?I] 0 0 = Inr (1, [?I, c1])"
    using matmul_h_total[of 0 "[?I]" 0 c1] c1 by simp
  obtain c2 where c2: "matmul ?I \<lparr>values_m = [[PyFloat (Finite False 2), PyFloat (Finite False 0), PyInt 0],
      [PyFloat (Finite False 0), PyFloat (Finite False 3), PyInt 0],
      [PyFloat (Finite False 0), PyFloat (Finite False 0), PyInt 1]]\<rparr> = Inr c2"
    using six by blast
  have i2: "PdfMatrix_init [Val (PyTuple [PyInt 2, PyInt 0, PyInt 0, PyInt 3, PyInt 0, PyInt 0])]
     = Inr \<lparr>values_m = [[PyFloat (Finite False 2), PyFloat (Finite False 0), PyInt 0],
      [PyFloat (Finite False 0), PyFloat (Finite False 3), PyInt 0],
      [PyFloat (Finite False 0), PyFloat (Finite False 0), PyInt 1]]\<rparr>"
    using py_float_0 py_float_2 py_float_3 by (simp add: PdfMatrix_init_def del: py_float.simps(2))
  have s: "\<exists>t. scaled_h [?I] 0 (PyInt 2) (PyInt 3) = Inr (2, [?I, t, c2])"
    using two_step_total[of 0 "[?I]", OF _ i2] c2 by (simp add: scaled_h_def)
  obtain c3 where c3: "matmul ?I \<lparr>values_m = [[PyFloat (Finite False 1), PyFloat (Finite False 0), PyInt 0],
      [PyFloat (Finite False 0), PyFloat (Finite False 1), PyInt 0],
      [PyFloat (Finite False 2), PyFloat (Finite False 3), PyInt 1]]\<rparr> = Inr c3"
    using six by blast
  have i3: "PdfMatrix_init [Val (PyTuple [PyInt 1, PyInt 0, PyInt 0, PyInt 1, PyInt 2, PyInt 3])]
     = Inr \<lparr>values_m = [[PyFloat (Finite False 1), PyFloat (Finite False 0), PyInt 0],
      [PyFloat (Finite False 0), PyFloat (Finite False 1), PyInt 0],
      [PyFloat (Finite False 2), PyFloat (Finite False 3), PyInt 1]]\<rparr>"
    using py_float_0 py_float_1 py_float_2 py_float_3
    by (simp add: PdfMatrix_init_def del: py_float.simps(2))
  have t: "\<exists>t. translated_h [?I] 0 (PyInt 2) (PyInt 3) = Inr (2, [?I, t, c3])"
    using two_step_total[of 0 "[?I]", OF _ i3] c3 by (simp add: translated_h_def)
  obtain c4 where c4: "matmul ?I \<lparr>values_m = [[PyFloat (Finite False 1), PyFloat (Finite False 0), PyInt 0],
      [PyFloat (Finite True 0), PyFloat (Finite False 1), PyInt 0],
      [PyFloat (Finite False 0), PyFloat (Finite False 0), PyInt 1]]\<rparr> = Inr c4"
    using six by blast
  have r: "\<exists>t. rotated_h (\<lambda>t. Finite False 1) (\<lambda>t. Finite False 0) [?I] 0 (PyInt 0)
      = Inr (2, [?I, t, c4])"
    using two_step_total[of 0 "[?I]", OF _ init_rotation] c4 angle_0
    by (simp add: rotated_h_def)
  from m s t r obtain t2 t3 t4 where e:
    "scaled_h [?I] 0 (PyInt 2) (PyInt 3) = Inr (2, [?I, t2, c2])"
    "translated_h [?I] 0 (PyInt 2) (PyInt 3) = Inr (2, [?I, t3, c3])"
    "rotated_h (\<lambda>t. Finite False 1) (\<lambda>t. Finite False 0) [?I] 0 (PyInt 0) = Inr (2, [?I, t4, c4])"
    by blast
  note f = operations_do_not_mutate
  from f[of "[?I]" 0 0 1 "[?I, c1]"] m
    f[of "[?I]" 0 0 2 "[?I, t2, c2]" "PyInt 2" "PyInt 3"] e(1)
    f[of "[?I]" 0 0 2 "[?I, t3, c3]" "PyInt 2" "PyInt 3"] e(2)
    f[of "[?I]" 0 0 2 "[?I, t4, c4]" _ _ "\<lambda>t. Finite False 1" "\<lambda>t. Finite False 0" "PyInt 0"] e(3)
  show ?thesis by simp
qed

subsection \<open>Equality\<close>


lemma py_eq_items_refl: "(\<And>x. x \<in> set xs \<Longrightarrow> py_eq x x) \<Longrightarrow> py_eq_items xs xs"
  by (induction xs) auto

lemma py_eq_refl: "\<not> has_nan v \<Longrightarrow> py_eq v v"
proof (induction v)
  case (PyFloat x)
  then show ?case by (cases x) auto
next
  case (PyTuple xs)
  then show ?case by (auto intro: py_eq_items_refl)
next
  case (PyList xs)
  then show ?case by (auto intro: py_eq_items_refl)
qed auto




subsection \<open>The encoding\<close>

lemma digit_char_is_digit: "n < 10 \<Longrightarrow> is_digit (digit_char n)"
proof -
  assume "n < 10"
  then have "n \<in> {0, 1, 2, 3, 4, 5, 6, 7, 8, 9}" by auto
  then show ?thesis
    by (auto simp: digit_char_def is_digit_def)
qed

lemma dec_digits_digits: "dec_digits n \<noteq> [] \<and> list_all is_digit (dec_digits n)"
proof (induction n rule: dec_digits.induct)
  case (1 n)
  show ?case
  proof (cases "n < 10")
    case True
    then show ?thesis by (subst dec_digits.simps, subst dec_digits.simps) (simp add: digit_char_is_digit)
  next
    case False
    with 1 show ?thesis
      by (subst dec_digits.simps, subst (2) dec_digits.simps) (simp add: digit_char_is_digit)
  qed
qed

lemma frac6_digits: "length (frac6 n) = 6 \<and> list_all is_digit (frac6 n)"
  by (simp add: frac6_def digit_char_is_digit)

lemma not_digit_point: "\<not> is_digit CHR ''.''" "\<not> is_digit CHR ''-''"
  by (simp_all add: is_digit_def)

lemma fixed6_shape:
  assumes "ip \<noteq> []" "list_all is_digit ip" "length fp = 6" "list_all is_digit fp"
  shows "is_fixed6 ((if neg then ''-'' else []) @ ip @ ''.'' @ fp)"
proof -
  obtain d ds where ip: "ip = d # ds" using assms(1) by (cases ip) auto
  have d: "is_digit d" "\<forall>x \<in> set ds. is_digit x" using assms(2) ip by (auto simp: list_all_iff)
  have nm: "d \<noteq> CHR ''-''" using d(1) not_digit_point(2) by auto
  have tw: "takeWhile is_digit (d # ds @ CHR ''.'' # fp) = d # ds"
    using d not_digit_point(1) by (simp add: takeWhile_tail)
  have dw: "dropWhile is_digit (d # ds @ CHR ''.'' # fp) = CHR ''.'' # fp"
    using d not_digit_point(1) by (simp add: dropWhile_append3)
  show ?thesis
    using tw dw nm assms(3,4) by (cases neg) (simp_all add: is_fixed6_def ip)
qed

lemma format_6f_fixed6: "is_fixed6 (format_6f (Finite s a))"
  using fixed6_shape[OF conjunct1[OF dec_digits_digits] conjunct2[OF dec_digits_digits]
      conjunct1[OF frac6_digits] conjunct2[OF frac6_digits]]
  by (simp add: Let_def)

lemma py_format_6f_float: "py_float v = Inr x \<Longrightarrow> py_format_6f v = Inr (format_6f x)"
  by (cases v) (auto simp del: py_float.simps(2))

lemma format_6f_no_space: "CHR '' '' \<notin> set (format_6f (Finite s a))"
proof -
  have sp: "\<not> is_digit CHR '' ''" by (simp add: is_digit_def)
  have "CHR '' '' \<notin> set (dec_digits n)" for n
    using dec_digits_digits[of n] sp by (auto simp: list_all_iff)
  moreover have "CHR '' '' \<notin> set (frac6 n)" for n
    using frac6_digits[of n] sp by (auto simp: list_all_iff)
  ultimately show ?thesis by (simp add: Let_def)
qed

lemma format_zero: "format_6f (Finite False 0) = ''0.000000''"
  by (simp add: round_half_even_def dec_digits.simps frac6_def digit_char_def)

lemma format_one: "format_6f (Finite False 1) = ''1.000000''"
  by (simp add: round_half_even_def dec_digits.simps frac6_def digit_char_def)

text \<open>
  C4 (as amended). For an instance whose six coefficients are finite numbers, \<^verbatim>\<open>encode()\<close>
  is the six coefficients in the order a b c d e f, each formatted with exactly six digits
  after the decimal point, with one space between two fields and nothing before, after or
  inside them; \<^verbatim>\<open>identity().encode()\<close> is
  \<^verbatim>\<open>1.000000 0.000000 0.000000 1.000000 0.000000 0.000000\<close>.
\<close>

theorem encode_format:
  "(shorthand m = Inr [va, vb, vc, vd, ve, vf] \<longrightarrow>
      py_float va = Inr (Finite sa xa) \<longrightarrow> py_float vb = Inr (Finite sb xb) \<longrightarrow>
      py_float vc = Inr (Finite sc xc) \<longrightarrow> py_float vd = Inr (Finite sd xd) \<longrightarrow>
      py_float ve = Inr (Finite se xe) \<longrightarrow> py_float vf = Inr (Finite sf xf) \<longrightarrow>
      encode m = Inr (format_6f (Finite sa xa) @ '' '' @ format_6f (Finite sb xb) @ '' '' @
                      format_6f (Finite sc xc) @ '' '' @ format_6f (Finite sd xd) @ '' '' @
                      format_6f (Finite se xe) @ '' '' @ format_6f (Finite sf xf))
      \<and> (\<forall>fld \<in> set [format_6f (Finite sa xa), format_6f (Finite sb xb), format_6f (Finite sc xc),
                        format_6f (Finite sd xd), format_6f (Finite se xe), format_6f (Finite sf xf)].
            is_fixed6 fld \<and> CHR '' '' \<notin> set fld))
   \<and> (\<exists>I. identity = Inr I
        \<and> encode I = Inr ''1.000000 0.000000 0.000000 1.000000 0.000000 0.000000'')"
proof -
  have p1: "encode m = Inr (format_6f (Finite sa xa) @ '' '' @ format_6f (Finite sb xb) @ '' '' @
                      format_6f (Finite sc xc) @ '' '' @ format_6f (Finite sd xd) @ '' '' @
                      format_6f (Finite se xe) @ '' '' @ format_6f (Finite sf xf))"
    if "shorthand m = Inr [va, vb, vc, vd, ve, vf]"
      "py_float va = Inr (Finite sa xa)" "py_float vb = Inr (Finite sb xb)"
      "py_float vc = Inr (Finite sc xc)" "py_float vd = Inr (Finite sd xd)"
      "py_float ve = Inr (Finite se xe)" "py_float vf = Inr (Finite sf xf)"
    using that(1) py_format_6f_float[OF that(2)] py_format_6f_float[OF that(3)]
      py_format_6f_float[OF that(4)] py_format_6f_float[OF that(5)]
      py_format_6f_float[OF that(6)] py_format_6f_float[OF that(7)]
    by (simp add: encode_def del: format_6f.simps)
  have p2: "\<forall>fld \<in> set [format_6f (Finite sa xa), format_6f (Finite sb xb), format_6f (Finite sc xc),
                        format_6f (Finite sd xd), format_6f (Finite se xe), format_6f (Finite sf xf)].
            is_fixed6 fld \<and> CHR '' '' \<notin> set fld"
    using format_6f_fixed6 format_6f_no_space by (simp del: format_6f.simps)
  have p3: "\<exists>I. identity = Inr I
        \<and> encode I = Inr ''1.000000 0.000000 0.000000 1.000000 0.000000 0.000000''"
    using py_float_0 py_float_1 format_zero format_one
    by (simp add: identity_grid encode_def
        shorthand_grid_of[of _ "\<lambda>i k. PyInt (if i = k then 1 else 0)"]
        del: format_6f.simps py_float.simps(2))
  from p1 p2 p3 show ?thesis by blast
qed

text \<open>
  The claim as stated fails on a coefficient that is not finite: the format \<^verbatim>\<open>{:.6f}\<close>
  prints an infinity as \<^verbatim>\<open>inf\<close>, without a decimal point.
\<close>

theorem encode_format_counterexample:
  "PdfMatrix_init [Val (PyFloat (Infinity False)), Val (PyInt 0), Val (PyInt 0),
                   Val (PyInt 1), Val (PyInt 0), Val (PyInt 0)]
     = Inr \<lparr>values_m = [[PyFloat (Infinity False), PyFloat (Finite False 0), PyInt 0],
                         [PyFloat (Finite False 0), PyFloat (Finite False 1), PyInt 0],
                         [PyFloat (Finite False 0), PyFloat (Finite False 0), PyInt 1]]\<rparr>
   \<and> encode \<lparr>values_m = [[PyFloat (Infinity False), PyFloat (Finite False 0), PyInt 0],
                         [PyFloat (Finite False 0), PyFloat (Finite False 1), PyInt 0],
                         [PyFloat (Finite False 0), PyFloat (Finite False 0), PyInt 1]]\<rparr>
     = Inr ''inf 0.000000 0.000000 1.000000 0.000000 0.000000''
   \<and> \<not> is_fixed6 ''inf''"
  using py_float_0 py_float_1 format_zero format_one
  by (simp add: PdfMatrix_init_def encode_def shorthand_def PdfMatrix_a_def PdfMatrix_b_def
      PdfMatrix_c_def PdfMatrix_d_def PdfMatrix_e_def PdfMatrix_f_def cell_def nth_err_def
      is_fixed6_def is_digit_def
      del: format_6f.simps(1) py_float.simps(2))

theorem encode_format_witness:
  "encode \<lparr>values_m = [[PyFloat (Finite False (5 / 2)), PyFloat (Finite True 0), PyInt 0],
                        [PyInt 0, PyFloat (Finite True 3), PyInt 0],
                        [PyInt 1, PyFloat (Finite False (1 / 8)), PyInt 1]]\<rparr>
     = Inr ''2.500000 -0.000000 0.000000 -3.000000 1.000000 0.125000''
   \<and> is_fixed6 ''-3.000000''"
proof -
  let ?M = "\<lparr>values_m = [[PyFloat (Finite False (5 / 2)), PyFloat (Finite True 0), PyInt 0],
                        [PyInt 0, PyFloat (Finite True 3), PyInt 0],
                        [PyInt 1, PyFloat (Finite False (1 / 8)), PyInt 1]]\<rparr>"
  have sh: "shorthand ?M = Inr [PyFloat (Finite False (5 / 2)), PyFloat (Finite True 0), PyInt 0,
      PyFloat (Finite True 3), PyInt 1, PyFloat (Finite False (1 / 8))]"
    by (simp add: shorthand_def PdfMatrix_a_def PdfMatrix_b_def PdfMatrix_c_def
        PdfMatrix_d_def PdfMatrix_e_def PdfMatrix_f_def cell_def nth_err_def)
  have f: "format_6f (Finite False (5 / 2)) = ''2.500000''" "format_6f (Finite True 0) = ''-0.000000''"
    "format_6f (Finite True 3) = ''-3.000000''" "format_6f (Finite False (1 / 8)) = ''0.125000''"
    by (simp_all add: round_half_even_def dec_digits.simps frac6_def digit_char_def)
  from encode_format [of ?M "PyFloat (Finite False (5 / 2))" "PyFloat (Finite True 0)" "PyInt 0"
      "PyFloat (Finite True 3)" "PyInt 1" "PyFloat (Finite False (1 / 8))"
      False "5 / 2" True 0 False 0 True 3 False 1 False "1 / 8"] sh py_float_0 py_float_1
  show ?thesis
    by (simp add: f format_zero format_one del: format_6f.simps py_float.simps(2))
qed

end
